theory Spec2Isabelle
  imports Complex_Main
begin

section \<open>Python values, strings and exceptions\<close>

text \<open>
  The development embeds \<^verbatim>\<open>claims/utils.py\<close> (class \<^verbatim>\<open>DataImporter\<close> and the two export
  functions), the upload form of \<^verbatim>\<open>claims/forms.py\<close>, the upload view of
  \<^verbatim>\<open>claims/data_views.py\<close> and the view \<^verbatim>\<open>flag_claim\<close> of \<^verbatim>\<open>claims/views.py\<close>.

  A Python \<^verbatim>\<open>str\<close> is a list of code points; the model covers code points below 256, one
  \<^typ>\<open>char\<close> each, so \<^const>\<open>length\<close> and \<^const>\<open>take\<close> count what \<^verbatim>\<open>len\<close> and slicing count.
  An exception is its class together with the text \<^verbatim>\<open>str(e)\<close>; the texts of exceptions
  raised by the Python runtime follow CPython 3.
\<close>

datatype exc_class =
  ValueError | TypeError | KeyError | AttributeError | InvalidOperation
  | ValidationError | UnicodeDecodeError | JSONDecodeError | CsvError | IntegrityError
  | OverflowError | TransactionManagementError

datatype py_exc = Exc exc_class string

fun str_exc :: "py_exc \<Rightarrow> string" where
  "str_exc (Exc k msg) = msg"

fun exc_kind :: "py_exc \<Rightarrow> exc_class" where
  "exc_kind (Exc k msg) = k"

text \<open>
  A field value of a parsed record: \<^verbatim>\<open>csv.DictReader\<close> yields strings and \<^verbatim>\<open>None\<close> (for a
  short row), \<^verbatim>\<open>json.loads\<close> yields strings, integers, booleans and \<^verbatim>\<open>null\<close>. Floats and
  nested containers are outside the model.
\<close>

datatype pyval = PNone | PBool bool | PInt int | PStr string

type_synonym row = "string \<rightharpoonup> pyval"

definition digit_val :: "char \<Rightarrow> nat option" where
  "digit_val c = map_of
     [(CHR ''0'', 0), (CHR ''1'', 1), (CHR ''2'', 2), (CHR ''3'', 3), (CHR ''4'', 4),
      (CHR ''5'', 5), (CHR ''6'', 6), (CHR ''7'', 7), (CHR ''8'', 8), (CHR ''9'', 9)] c"

definition is_digit :: "char \<Rightarrow> bool" where
  "is_digit c = (digit_val c \<noteq> None)"

definition the_digit :: "char \<Rightarrow> nat" where
  "the_digit c = (case digit_val c of Some v \<Rightarrow> v | None \<Rightarrow> 0)"

definition digit_char :: "nat \<Rightarrow> char" where
  "digit_char d = ''0123456789'' ! (d mod 10)"

definition nat_of_digits :: "string \<Rightarrow> nat" where
  "nat_of_digits ds = foldl (\<lambda>a c. 10 * a + the_digit c) 0 ds"

fun str_nat :: "nat \<Rightarrow> string" where
  "str_nat n = (if n < 10 then [digit_char n] else str_nat (n div 10) @ [digit_char (n mod 10)])"

declare str_nat.simps [simp del]

definition str_int :: "int \<Rightarrow> string" where
  "str_int i = (if i < 0 then CHR ''-'' # str_nat (nat (- i)) else str_nat (nat i))"

text \<open>\<^verbatim>\<open>str(value)\<close>, which is also what an f-string substitutes.\<close>

fun py_str :: "pyval \<Rightarrow> string" where
  "py_str PNone = ''None''"
| "py_str (PBool b) = (if b then ''True'' else ''False'')"
| "py_str (PInt i) = str_int i"
| "py_str (PStr s) = s"

fun type_name :: "pyval \<Rightarrow> string" where
  "type_name PNone = ''NoneType''"
| "type_name (PBool b) = ''bool''"
| "type_name (PInt i) = ''int''"
| "type_name (PStr s) = ''str''"

text \<open>
  \<^verbatim>\<open>repr\<close> of a string: single quotes around it, or double quotes when it holds a single
  quote and no double quote. Inside, the quote in use and the backslash are preceded by a
  backslash, tab, line feed and carriage return are written \<^verbatim>\<open>\t\<close>, \<^verbatim>\<open>\n\<close>, \<^verbatim>\<open>\r\<close>, and
  every other code point that is not printable (below 0x20, 0x7F to 0xA0, 0xAD) is written
  \<^verbatim>\<open>\xhh\<close>.
\<close>

definition hex_digit :: "nat \<Rightarrow> char" where
  "hex_digit d = ''0123456789abcdef'' ! (d mod 16)"

definition printable :: "char \<Rightarrow> bool" where
  "printable c = (let n = (of_char c :: nat) in (32 \<le> n \<and> n < 127) \<or> (161 \<le> n \<and> n \<noteq> 173))"

definition repr_char :: "char \<Rightarrow> char \<Rightarrow> string" where
  "repr_char q c =
     (if c = q \<or> c = CHR 0x5C then [CHR 0x5C, c]
      else if c = CHR 0x09 then [CHR 0x5C, CHR ''t'']
      else if c = CHR 0x0A then [CHR 0x5C, CHR ''n'']
      else if c = CHR 0x0D then [CHR 0x5C, CHR ''r'']
      else if printable c then [c]
      else [CHR 0x5C, CHR ''x'', hex_digit (of_char c div 16), hex_digit (of_char c mod 16)])"

definition py_repr :: "string \<Rightarrow> string" where
  "py_repr s =
     (let q = (if CHR 0x27 \<in> set s \<and> CHR 0x22 \<notin> set s then CHR 0x22 else CHR 0x27)
      in [q] @ concat (map (repr_char q) s) @ [q])"

text \<open>\<^verbatim>\<open>str.isspace\<close> on one code point below 256, and \<^verbatim>\<open>str.strip()\<close>.\<close>

definition py_isspace :: "char \<Rightarrow> bool" where
  "py_isspace c = (c \<in> set [CHR 0x09, CHR 0x0A, CHR 0x0B, CHR 0x0C, CHR 0x0D,
      CHR 0x1C, CHR 0x1D, CHR 0x1E, CHR 0x1F, CHR 0x20, CHR 0x85, CHR 0xA0])"

definition strip :: "string \<Rightarrow> string" where
  "strip s = rev (dropWhile py_isspace (rev (dropWhile py_isspace s)))"

text \<open>\<^verbatim>\<open>row[key]\<close> and \<^verbatim>\<open>row.get(key, '')\<close>.\<close>

definition getitem :: "row \<Rightarrow> string \<Rightarrow> py_exc + pyval" where
  "getitem r k = (case r k of None \<Rightarrow> Inl (Exc KeyError (py_repr k)) | Some v \<Rightarrow> Inr v)"

definition get_or_empty :: "row \<Rightarrow> string \<Rightarrow> pyval" where
  "get_or_empty r k = (case r k of None \<Rightarrow> PStr [] | Some v \<Rightarrow> v)"

text \<open>Sequencing of steps that may raise.\<close>

definition then_do :: "py_exc + 'a \<Rightarrow> ('a \<Rightarrow> py_exc + 'b) \<Rightarrow> py_exc + 'b" where
  "then_do m f = (case m of Inl e \<Rightarrow> Inl e | Inr x \<Rightarrow> f x)"

subsection \<open>\<^verbatim>\<open>int(value)\<close>\<close>

text \<open>
  Base-10 literals: surrounding whitespace, an optional sign, then digits with single
  underscores allowed between digits. The whitespace that \<^verbatim>\<open>int\<close> skips is that of C
  (tab to carriage return, space) and the two spaces above 0x7F; unlike \<^verbatim>\<open>str.strip\<close> it
  does not skip the separators 0x1C to 0x1F.
\<close>

definition int_space :: "char \<Rightarrow> bool" where
  "int_space c = (c \<in> set [CHR 0x09, CHR 0x0A, CHR 0x0B, CHR 0x0C, CHR 0x0D, CHR 0x20,
      CHR 0x85, CHR 0xA0])"

definition int_strip :: "string \<Rightarrow> string" where
  "int_strip s = rev (dropWhile int_space (rev (dropWhile int_space s)))"

fun digit_run :: "nat \<Rightarrow> string \<Rightarrow> nat option" where
  "digit_run acc [] = Some acc"
| "digit_run acc [c] = (case digit_val c of None \<Rightarrow> None | Some v \<Rightarrow> Some (10 * acc + v))"
| "digit_run acc (c # d # ds) =
     (if c = CHR ''_''
      then (case digit_val d of None \<Rightarrow> None | Some v \<Rightarrow> digit_run (10 * acc + v) ds)
      else (case digit_val c of None \<Rightarrow> None | Some v \<Rightarrow> digit_run (10 * acc + v) (d # ds)))"

definition digits_us :: "string \<Rightarrow> nat option" where
  "digits_us s = (case s of [] \<Rightarrow> None
     | c # cs \<Rightarrow> (case digit_val c of None \<Rightarrow> None | Some v \<Rightarrow> digit_run v cs))"

definition int_literal :: "string \<Rightarrow> int option" where
  "int_literal s = (case int_strip s of [] \<Rightarrow> None
     | c # cs \<Rightarrow>
         if c = CHR ''-'' then map_option (\<lambda>n. - int n) (digits_us cs)
         else if c = CHR ''+'' then map_option int (digits_us cs)
         else map_option int (digits_us (c # cs)))"

fun py_int :: "pyval \<Rightarrow> py_exc + int" where
  "py_int PNone = Inl (Exc TypeError
     (''int() argument must be a string, a bytes-like object or a real number, not ''
      @ py_repr ''NoneType''))"
| "py_int (PBool b) = Inr (if b then 1 else 0)"
| "py_int (PInt i) = Inr i"
| "py_int (PStr s) = (case int_literal s of
       None \<Rightarrow> Inl (Exc ValueError (''invalid literal for int() with base 10: '' @ py_repr s))
     | Some i \<Rightarrow> Inr i)"

subsection \<open>\<^verbatim>\<open>decimal.Decimal\<close>\<close>

text \<open>
  A \<^verbatim>\<open>Decimal\<close> is a sign, a coefficient and an exponent, an infinity or a NaN.
  \<^verbatim>\<open>Decimal(s)\<close> removes surrounding whitespace and every underscore, then reads
  \<^verbatim>\<open>[sign] (digits [. [digits]] | . digits) [E [sign] digits]\<close>, \<^verbatim>\<open>[sign] Inf[inity]\<close> or
  \<^verbatim>\<open>[sign] [s]NaN [digits]\<close>, letters in either case. The value is exact: the coefficient is
  the digits read, the exponent the written one minus the number of fraction digits.
\<close>

datatype decimal = Finite bool nat int | Infinity bool | NaN bool bool string

definition lower :: "char \<Rightarrow> char" where
  "lower c = (case map_of (zip ''ABCDEFGHIJKLMNOPQRSTUVWXYZ'' ''abcdefghijklmnopqrstuvwxyz'') c of
     None \<Rightarrow> c | Some l \<Rightarrow> l)"

definition signed_digits :: "string \<Rightarrow> int option" where
  "signed_digits s = (case s of [] \<Rightarrow> None
     | c # cs \<Rightarrow>
         if c = CHR ''-'' then (if cs \<noteq> [] \<and> list_all is_digit cs then Some (- int (nat_of_digits cs)) else None)
         else if c = CHR ''+'' then (if cs \<noteq> [] \<and> list_all is_digit cs then Some (int (nat_of_digits cs)) else None)
         else (if list_all is_digit (c # cs) then Some (int (nat_of_digits (c # cs))) else None))"

definition numeric_value :: "bool \<Rightarrow> string \<Rightarrow> decimal option" where
  "numeric_value sg s =
     (let l = map lower s in
      if l = ''inf'' \<or> l = ''infinity'' then Some (Infinity sg)
      else if take 3 l = ''nan'' \<and> list_all is_digit (drop 3 s)
        then Some (NaN sg False (dropWhile (\<lambda>c. c = CHR ''0'') (drop 3 s)))
      else if take 4 l = ''snan'' \<and> list_all is_digit (drop 4 s)
        then Some (NaN sg True (dropWhile (\<lambda>c. c = CHR ''0'') (drop 4 s)))
      else
        let ip = takeWhile is_digit s;
            r1 = dropWhile is_digit s;
            dot = (r1 \<noteq> [] \<and> hd r1 = CHR ''.'');
            fp = (if dot then takeWhile is_digit (tl r1) else []);
            r2 = (if dot then dropWhile is_digit (tl r1) else r1)
        in if ip = [] \<and> fp = [] then None
           else (case r2 of
               [] \<Rightarrow> Some (Finite sg (nat_of_digits (ip @ fp)) (- int (length fp)))
             | c # r \<Rightarrow>
                 if lower c = CHR ''e''
                 then map_option (\<lambda>e. Finite sg (nat_of_digits (ip @ fp)) (e - int (length fp)))
                        (signed_digits r)
                 else None))"

definition Decimal :: "string \<Rightarrow> decimal option" where
  "Decimal s = (case filter (\<lambda>c. c \<noteq> CHR ''_'') (strip s) of
       [] \<Rightarrow> None
     | c # cs \<Rightarrow>
         if c = CHR ''-'' then numeric_value True cs
         else if c = CHR ''+'' then numeric_value False cs
         else numeric_value False (c # cs))"

text \<open>
  The signed coefficients of two finite decimals at their common (smaller) exponent, which
  is how two finite decimals are compared.
\<close>

definition signed_coeff :: "bool \<Rightarrow> nat \<Rightarrow> int" where
  "signed_coeff sg c = (if sg then - int c else int c)"

definition at_exponent :: "bool \<Rightarrow> nat \<Rightarrow> int \<Rightarrow> int \<Rightarrow> int" where
  "at_exponent sg c e e0 = signed_coeff sg c * 10 ^ nat (e - e0)"

text \<open>
  \<^verbatim>\<open>a < b\<close> on decimals. An ordering comparison with a NaN operand signals
  \<^verbatim>\<open>InvalidOperation\<close>, which the default context raises.
\<close>

fun dec_less :: "decimal \<Rightarrow> decimal \<Rightarrow> py_exc + bool" where
  "dec_less (Finite s1 c1 e1) (Finite s2 c2 e2) =
     Inr (at_exponent s1 c1 e1 (min e1 e2) < at_exponent s2 c2 e2 (min e1 e2))"
| "dec_less (Finite s1 c1 e1) (Infinity s2) = Inr (\<not> s2)"
| "dec_less (Infinity s1) (Finite s2 c2 e2) = Inr s1"
| "dec_less (Infinity s1) (Infinity s2) = Inr (s1 \<and> \<not> s2)"
| "dec_less (NaN s g p) b = Inl (Exc InvalidOperation ''[<class 'decimal.InvalidOperation'>]'')"
| "dec_less a (NaN s g p) = Inl (Exc InvalidOperation ''[<class 'decimal.InvalidOperation'>]'')"

subsection \<open>\<^verbatim>\<open>DataImporter.safe_decimal_conversion\<close>\<close>

definition max_amount :: decimal where
  "max_amount = Finite False 999999999 (- 2)"

definition zero_amount :: decimal where
  "zero_amount = Finite False 0 (- 2)"

text \<open>The \<^verbatim>\<open>0\<close> of \<^verbatim>\<open>decimal_value < 0\<close>, converted to a decimal by the comparison.\<close>

definition int_zero :: decimal where
  "int_zero = Finite False 0 0"

definition cleaned :: "pyval \<Rightarrow> string" where
  "cleaned v = strip (filter (\<lambda>c. c \<noteq> CHR '','') (filter (\<lambda>c. c \<noteq> CHR ''$'') (py_str v)))"

text \<open>
  The body of the \<^verbatim>\<open>try\<close>: the exceptions it raises are \<^verbatim>\<open>InvalidOperation\<close> (from the
  constructor or from a comparison with NaN) and the two \<^verbatim>\<open>ValueError\<close>s of the bounds.
\<close>

definition decimal_checked :: "string \<Rightarrow> string \<Rightarrow> py_exc + decimal" where
  "decimal_checked cleaned_value field_name =
     (if cleaned_value = [] then Inr zero_amount
      else case Decimal cleaned_value of
          None \<Rightarrow> Inl (Exc InvalidOperation ''[<class 'decimal.ConversionSyntax'>]'')
        | Some decimal_value \<Rightarrow>
            then_do (dec_less decimal_value int_zero) (\<lambda>negative.
              if negative then Inl (Exc ValueError (''Negative value not allowed for '' @ field_name))
              else then_do (dec_less max_amount decimal_value) (\<lambda>too_large.
                if too_large then Inl (Exc ValueError (''Value too large for '' @ field_name))
                else Inr decimal_value)))"

text \<open>
  Both exception classes are caught by \<^verbatim>\<open>except (InvalidOperation, ValueError)\<close> and
  re-raised as one \<^verbatim>\<open>ValueError\<close> that quotes the raw value.
\<close>

definition quoted :: "string \<Rightarrow> string" where
  "quoted s = [CHR 0x27] @ s @ [CHR 0x27]"

definition safe_decimal_conversion :: "pyval \<Rightarrow> string \<Rightarrow> py_exc + decimal" where
  "safe_decimal_conversion v field_name =
     (case decimal_checked (cleaned v) field_name of
        Inl e \<Rightarrow> Inl (Exc ValueError
          (''Invalid '' @ field_name @ '': '' @ quoted (py_str v) @ '' - '' @ str_exc e))
      | Inr d \<Rightarrow> Inr d)"

subsection \<open>Dates: \<^verbatim>\<open>datetime.strptime\<close>, \<^verbatim>\<open>strftime\<close> and \<^verbatim>\<open>DataImporter._parse_date\<close>\<close>

datatype date = Date nat nat nat

text \<open>
  \<^verbatim>\<open>strptime\<close> compiles a format to a regular expression and matches it at the start of the
  string: \<^verbatim>\<open>%Y\<close> is four digits, \<^verbatim>\<open>%m\<close> is \<^verbatim>\<open>1[0-2]|0[1-9]|[1-9]\<close> and \<^verbatim>\<open>%d\<close> is
  \<^verbatim>\<open>3[0-1]|[1-2]\d|0[1-9]|[1-9]| [1-9]\<close>. Each matcher returns its matches in the order
  the regular expression tries them, so the head of the list is the match found.
\<close>

datatype directive = DY | Dm | Dd | Lit char

definition re_Y :: "string \<Rightarrow> (nat \<times> string) list" where
  "re_Y s = (if 4 \<le> length s \<and> list_all is_digit (take 4 s)
             then [(nat_of_digits (take 4 s), drop 4 s)] else [])"

definition two_of :: "string \<Rightarrow> string \<Rightarrow> string \<Rightarrow> (nat \<times> string) list" where
  "two_of firsts seconds s = (case s of
       a # b # r \<Rightarrow> if a \<in> set firsts \<and> b \<in> set seconds
                    then [(10 * the_digit a + the_digit b, r)] else []
     | _ \<Rightarrow> [])"

definition one_of :: "string \<Rightarrow> string \<Rightarrow> (nat \<times> string) list" where
  "one_of digits s = (case s of
       a # r \<Rightarrow> if a \<in> set digits then [(the_digit a, r)] else []
     | [] \<Rightarrow> [])"

definition re_m :: "string \<Rightarrow> (nat \<times> string) list" where
  "re_m s = two_of ''1'' ''012'' s @ two_of ''0'' ''123456789'' s @ one_of ''123456789'' s"

definition re_d :: "string \<Rightarrow> (nat \<times> string) list" where
  "re_d s = two_of ''3'' ''01'' s @ two_of ''12'' ''0123456789'' s @ two_of ''0'' ''123456789'' s
            @ one_of ''123456789'' s
            @ (case s of a # r \<Rightarrow> if a = CHR '' '' then one_of ''123456789'' r else [] | [] \<Rightarrow> [])"

fun re_match :: "directive list \<Rightarrow> nat \<times> nat \<times> nat \<Rightarrow> string \<Rightarrow> ((nat \<times> nat \<times> nat) \<times> string) list" where
  "re_match [] ymd s = [(ymd, s)]"
| "re_match (DY # ds) (y, m, d) s = concat (map (\<lambda>(v, r). re_match ds (v, m, d) r) (re_Y s))"
| "re_match (Dm # ds) (y, m, d) s = concat (map (\<lambda>(v, r). re_match ds (y, v, d) r) (re_m s))"
| "re_match (Dd # ds) (y, m, d) s = concat (map (\<lambda>(v, r). re_match ds (y, m, v) r) (re_d s))"
| "re_match (Lit c # ds) ymd s =
     (case s of a # r \<Rightarrow> if a = c then re_match ds ymd r else [] | [] \<Rightarrow> [])"

definition leap_year :: "nat \<Rightarrow> bool" where
  "leap_year y = (y mod 4 = 0 \<and> (y mod 100 \<noteq> 0 \<or> y mod 400 = 0))"

definition days_in_month :: "nat \<Rightarrow> nat \<Rightarrow> nat" where
  "days_in_month y m =
     (if m = 2 then (if leap_year y then 29 else 28)
      else if m \<in> set [4, 6, 9, 11] then 30 else 31)"

definition valid_date :: "nat \<Rightarrow> nat \<Rightarrow> nat \<Rightarrow> bool" where
  "valid_date y m d = (1 \<le> y \<and> y \<le> 9999 \<and> 1 \<le> m \<and> m \<le> 12 \<and> 1 \<le> d \<and> d \<le> days_in_month y m)"

text \<open>
  \<^verbatim>\<open>datetime.strptime(s, fmt).date()\<close>: no match, text left after the match and a day
  that the month does not have are each a \<^verbatim>\<open>ValueError\<close>.
\<close>

definition strptime :: "string \<Rightarrow> directive list \<Rightarrow> py_exc + date" where
  "strptime s fmt = (case re_match fmt (1900, 1, 1) s of
       [] \<Rightarrow> Inl (Exc ValueError (''time data '' @ py_repr s @ '' does not match format''))
     | ((y, m, d), r) # _ \<Rightarrow>
         if r \<noteq> [] then Inl (Exc ValueError (''unconverted data remains: '' @ r))
         else if valid_date y m d then Inr (Date y m d)
         else Inl (Exc ValueError ''day is out of range for month''))"

definition iso_format :: "directive list" where
  "iso_format = [DY, Lit (CHR ''-''), Dm, Lit (CHR ''-''), Dd]"

text \<open>The list \<^verbatim>\<open>['%m/%d/%Y', '%d/%m/%Y', '%Y/%m/%d', '%m-%d-%Y', '%d-%m-%Y']\<close>.\<close>

definition other_formats :: "directive list list" where
  "other_formats =
     [[Dm, Lit (CHR ''/''), Dd, Lit (CHR ''/''), DY],
      [Dd, Lit (CHR ''/''), Dm, Lit (CHR ''/''), DY],
      [DY, Lit (CHR ''/''), Dm, Lit (CHR ''/''), Dd],
      [Dm, Lit (CHR ''-''), Dd, Lit (CHR ''-''), DY],
      [Dd, Lit (CHR ''-''), Dm, Lit (CHR ''-''), DY]]"

fun try_formats :: "string \<Rightarrow> directive list list \<Rightarrow> date option" where
  "try_formats s [] = None"
| "try_formats s (f # fs) = (case strptime s f of Inr d \<Rightarrow> Some d | Inl e \<Rightarrow> try_formats s fs)"

text \<open>
  A value that is not a string makes \<^verbatim>\<open>strptime\<close> raise \<^verbatim>\<open>TypeError\<close>, which
  \<^verbatim>\<open>_parse_date\<close> does not catch.
\<close>

fun parse_date :: "pyval \<Rightarrow> string \<Rightarrow> py_exc + date" where
  "parse_date (PStr date_str) context =
     (case strptime date_str iso_format of
        Inr d \<Rightarrow> Inr d
      | Inl e \<Rightarrow> (case try_formats date_str other_formats of
            Some d \<Rightarrow> Inr d
          | None \<Rightarrow> Inl (Exc ValueError (context @ '' Invalid date format: '' @ date_str
                @ ''. Expected YYYY-MM-DD or MM/DD/YYYY or DD/MM/YYYY''))))"
| "parse_date v context =
     Inl (Exc TypeError (''strptime() argument 1 must be str, not ''
       @ (if v = PNone then ''None'' else type_name v)))"

definition pad :: "nat \<Rightarrow> string \<Rightarrow> string" where
  "pad n s = replicate (n - length s) (CHR ''0'') @ s"

text \<open>
  \<^verbatim>\<open>d.strftime('%Y-%m-%d')\<close>: month and day take two digits; the year is written by the C
  library of the platform, which (glibc) does not pad it, so that the year 999 is
  \<^verbatim>\<open>999\<close>.
\<close>

fun strftime :: "date \<Rightarrow> string" where
  "strftime (Date y m d) = str_nat y @ ''-'' @ pad 2 (str_nat m) @ ''-'' @ pad 2 (str_nat d)"

section \<open>The store: \<^verbatim>\<open>claims/models.py\<close>\<close>

text \<open>
  Each model is a table, a list of rows in the order the store returns them: the claims
  by their primary key, the caller-supplied \<^verbatim>\<open>id\<close>, the other tables in the order of
  insertion. \<^verbatim>\<open>ClaimDetail\<close>, \<^verbatim>\<open>Flag\<close> and \<^verbatim>\<open>Note\<close> point to their claim by its id and are
  deleted with it (\<^verbatim>\<open>on_delete=CASCADE\<close>).
  A \<^verbatim>\<open>DecimalField(max_digits=10, decimal_places=2)\<close> keeps an amount in hundredths.
  The failures of the store that the model has are those of SQLite that the importer can
  meet: an integer key of more than 64 bits, and the \<^verbatim>\<open>NOT NULL\<close> constraint of
  \<^verbatim>\<open>cpt_codes\<close>.
\<close>

record claim =
  id' :: int
  patient_name :: string
  billed_amount :: int
  paid_amount :: int
  status :: string
  insurer_name :: string
  discharge_date :: date
  burger_combo_code :: "string option"

record claim_detail =
  claim_id :: int
  cpt_codes :: string
  denial_reason :: "string option"

record flag =
  flag_claim_id :: int
  flag_user :: string
  flag_reason :: string

record claim_note =
  note_claim_id :: int
  note_user :: string
  note_text :: string

record store =
  claims :: "claim list"
  details :: "claim_detail list"
  flags :: "flag list"
  claim_notes :: "claim_note list"

text \<open>
  Modelled from the field declaration \<^verbatim>\<open>DecimalField(max_digits=10, decimal_places=2)\<close>:
  what the column keeps of a decimal is its value in hundredths, rounded half to even as
  Django formats a decimal for the database. Only finite decimals reach the store.
\<close>

definition to_cents :: "decimal \<Rightarrow> int" where
  "to_cents d = (case d of
       Finite sg c e \<Rightarrow>
         if - 2 \<le> e then signed_coeff sg (c * 10 ^ nat (e + 2))
         else (let p = 10 ^ nat (- 2 - e); q = c div p; r = c mod p
               in signed_coeff sg (if p < 2 * r \<or> (2 * r = p \<and> odd q) then q + 1 else q))
     | Infinity sg \<Rightarrow> 0
     | NaN sg g p \<Rightarrow> 0)"

text \<open>\<^verbatim>\<open>str(claim.billed_amount)\<close> of an amount read from the store: fixed point, two places.\<close>

definition str_amount :: "int \<Rightarrow> string" where
  "str_amount c = (if c < 0 then ''-'' else [])
     @ str_nat (nat \<bar>c\<bar> div 100) @ ''.'' @ pad 2 (str_nat (nat \<bar>c\<bar> mod 100))"

text \<open>\<^verbatim>\<open>Claim.objects.get(id=...)\<close>; \<^verbatim>\<open>None\<close> stands for \<^verbatim>\<open>Claim.DoesNotExist\<close>.\<close>

definition get_claim :: "store \<Rightarrow> int \<Rightarrow> claim option" where
  "get_claim db i = find (\<lambda>c. id' c = i) (claims db)"

text \<open>
  \<^verbatim>\<open>Claim.objects.get_or_create(id=..., defaults=...)\<close>: the flag is \<^verbatim>\<open>created\<close>. The
  insertion runs in a savepoint of its own; it fails, and changes nothing, when the id
  does not fit a signed 64-bit integer.
\<close>

definition get_or_create_claim :: "claim \<Rightarrow> store \<Rightarrow> py_exc + bool \<times> store" where
  "get_or_create_claim new db = (case get_claim db (id' new) of
       Some c \<Rightarrow> Inr (False, db)
     | None \<Rightarrow>
         if 2 ^ 63 \<le> id' new
         then Inl (Exc OverflowError ''Python int too large to convert to SQLite INTEGER'')
         else Inr (True, db\<lparr>claims := insort_key id' new (claims db)\<rparr>))"

text \<open>Assigning every field of the fetched claim and calling \<^verbatim>\<open>claim.save()\<close>.\<close>

definition save_claim :: "claim \<Rightarrow> store \<Rightarrow> store" where
  "save_claim new db = db\<lparr>claims := map (\<lambda>c. if id' c = id' new then new else c) (claims db)\<rparr>"

definition get_detail :: "store \<Rightarrow> int \<Rightarrow> claim_detail option" where
  "get_detail db i = find (\<lambda>d. claim_id d = i) (details db)"

definition save_detail :: "claim_detail \<Rightarrow> store \<Rightarrow> store" where
  "save_detail new db =
     db\<lparr>details := map (\<lambda>d. if claim_id d = claim_id new then new else d) (details db)\<rparr>"

text \<open>\<^verbatim>\<open>ClaimDetail.objects.all().delete()\<close>.\<close>

definition delete_all_details :: "store \<Rightarrow> store" where
  "delete_all_details db = db\<lparr>details := []\<rparr>"

text \<open>\<^verbatim>\<open>Claim.objects.all().delete()\<close>, which cascades to the rows that point to a claim.\<close>

definition delete_all_claims :: "store \<Rightarrow> store" where
  "delete_all_claims db = db\<lparr>claims := [], details := [], flags := [], claim_notes := []\<rparr>"

section \<open>\<^verbatim>\<open>DataImporter\<close>\<close>

record results =
  claims_created :: nat
  claims_updated :: nat
  details_created :: nat
  details_updated :: nat
  errors :: "string list"

text \<open>\<^verbatim>\<open>DataImporter.__init__\<close>.\<close>

definition init_results :: results where
  "init_results = \<lparr>claims_created = 0, claims_updated = 0, details_created = 0,
     details_updated = 0, errors = []\<rparr>"

definition MAX_FILE_SIZE :: nat where
  "MAX_FILE_SIZE = 50 * 1024 * 1024"

definition MAX_ROWS :: nat where
  "MAX_ROWS = 50000"

definition add_error :: "string \<Rightarrow> results \<Rightarrow> results" where
  "add_error msg res = res\<lparr>errors := errors res @ [msg]\<rparr>"

subsection \<open>Uploaded files\<close>

text \<open>
  An element of a decoded JSON array is an object with scalar members, or something else,
  kept by the name of its Python type (\<^verbatim>\<open>list\<close>, \<^verbatim>\<open>str\<close>, \<^verbatim>\<open>int\<close>, \<^verbatim>\<open>float\<close>, \<^verbatim>\<open>bool\<close>,
  \<^verbatim>\<open>NoneType\<close>): subscripting it with a field name raises \<^verbatim>\<open>TypeError\<close>.
  A decoded document is an array, an object (iterated by its keys), a string (iterated by
  its characters) or a number, boolean or \<^verbatim>\<open>null\<close> (kept by its type name).
\<close>

datatype item = IObj row | INonObj string

datatype json_doc = JArray "item list" | JDict "string list" | JText string | JScalar string

text \<open>
  An upload as the importer sees it: its name and size, and what the Python libraries make
  of its bytes. \<^verbatim>\<open>decode_error\<close> is the text of the \<^verbatim>\<open>UnicodeDecodeError\<close> of
  \<^verbatim>\<open>file.read().decode('utf-8')\<close>, if any. \<^verbatim>\<open>csv.DictReader(..., delimiter='|')\<close> gives the
  header (\<^verbatim>\<open>fieldnames\<close>), then the rows, then possibly a \<^verbatim>\<open>csv.Error\<close>. \<^verbatim>\<open>json.loads\<close>
  gives a document or the text of a \<^verbatim>\<open>JSONDecodeError\<close>.
\<close>

record upload =
  fname :: string
  fsize :: nat
  decode_error :: "string option"
  csv_fieldnames :: "string list option"
  csv_rows :: "row list"
  csv_error :: "string option"
  json_doc :: "string + json_doc"

text \<open>
  How a piece of the importer ends: it runs to its end, an exception leaves it, or it runs
  to its end in a transaction that a failed \<^verbatim>\<open>save()\<close> has marked for rollback
  (\<^verbatim>\<open>connection.needs_rollback\<close>).
\<close>

datatype outcome = Done | Raised py_exc | NeedsRollback

definition none_has_no :: "string \<Rightarrow> py_exc" where
  "none_has_no attr = Exc AttributeError
     (py_repr ''NoneType'' @ '' object has no attribute '' @ py_repr attr)"

text \<open>\<^verbatim>\<open>str(ValidationError(msg))\<close> is the \<^verbatim>\<open>repr\<close> of the list of its messages.\<close>

definition validation_error :: "string \<Rightarrow> py_exc" where
  "validation_error msg = Exc ValidationError (''['' @ py_repr msg @ '']'')"

text \<open>
  \<^verbatim>\<open>DataImporter.validate_file\<close>. An uploaded file is falsy when its name is empty.
\<close>

definition validate_file :: "upload option \<Rightarrow> py_exc + bool" where
  "validate_file file = (case file of
       None \<Rightarrow> Inl (validation_error ''No file provided'')
     | Some u \<Rightarrow>
         if fname u = [] then Inl (validation_error ''No file provided'')
         else if MAX_FILE_SIZE < fsize u
           then Inl (validation_error (''File size exceeds maximum limit of ''
                  @ str_nat (MAX_FILE_SIZE div (1024 * 1024)) @ ''MB''))
         else Inr True)"

subsection \<open>Field coercions used by the row handlers\<close>

definition valid_statuses :: "string list" where
  "valid_statuses = [''Paid'', ''Denied'', ''Under Review'']"

text \<open>\<^verbatim>\<open>str(valid_statuses)\<close>.\<close>

definition str_valid_statuses :: string where
  "str_valid_statuses = ''['Paid', 'Denied', 'Under Review']''"

text \<open>\<^verbatim>\<open>value not in valid_statuses\<close>.\<close>

fun not_in_statuses :: "pyval \<Rightarrow> bool" where
  "not_in_statuses (PStr s) = (s \<notin> set valid_statuses)"
| "not_in_statuses v = True"

text \<open>\<^verbatim>\<open>value.strip()\<close> and \<^verbatim>\<open>value[:n]\<close> on a field value.\<close>

fun strip_of :: "pyval \<Rightarrow> py_exc + string" where
  "strip_of (PStr s) = Inr (strip s)"
| "strip_of v = Inl (Exc AttributeError
     (py_repr (type_name v) @ '' object has no attribute '' @ py_repr ''strip''))"

fun slice_of :: "pyval \<Rightarrow> nat \<Rightarrow> py_exc + string" where
  "slice_of (PStr s) n = Inr (take n s)"
| "slice_of v n = Inl (Exc TypeError (py_repr (type_name v) @ '' object is not subscriptable''))"

fun truthy :: "pyval \<Rightarrow> bool" where
  "truthy PNone = False"
| "truthy (PBool b) = b"
| "truthy (PInt i) = (i \<noteq> 0)"
| "truthy (PStr s) = (s \<noteq> [])"

subsection \<open>\<^verbatim>\<open>DataImporter._import_claims_csv\<close>\<close>

text \<open>
  The body of the \<^verbatim>\<open>try\<close> up to and including the \<^verbatim>\<open>defaults\<close> dictionary: every step
  that can raise, in the order the source takes them. The result is the claim that
  \<^verbatim>\<open>get_or_create\<close> would insert.
\<close>

definition claim_of_csv_row :: "row \<Rightarrow> nat \<Rightarrow> py_exc + claim" where
  "claim_of_csv_row row row_num =
     then_do (getitem row ''id'') (\<lambda>id_value.
     then_do (py_int id_value) (\<lambda>claim_id.
     if claim_id \<le> 0 then Inl (Exc ValueError (''Invalid claim ID: '' @ str_int claim_id))
     else
     then_do (getitem row ''discharge_date'') (\<lambda>date_str.
     then_do (parse_date date_str (''Row '' @ str_nat row_num)) (\<lambda>discharge_date.
     then_do (getitem row ''billed_amount'') (\<lambda>billed_value.
     then_do (safe_decimal_conversion billed_value ''billed_amount'') (\<lambda>billed_amount.
     then_do (getitem row ''paid_amount'') (\<lambda>paid_value.
     then_do (safe_decimal_conversion paid_value ''paid_amount'') (\<lambda>paid_amount.
     then_do (getitem row ''status'') (\<lambda>status_value.
     if not_in_statuses status_value
       then Inl (Exc ValueError (''Invalid status: '' @ py_str status_value
              @ ''. Must be one of: '' @ str_valid_statuses))
     else
     then_do (strip_of (get_or_empty row ''patient_name'')) (\<lambda>patient.
     if patient = [] then Inl (Exc ValueError ''Patient name is required'')
     else
     then_do (strip_of (get_or_empty row ''insurer_name'')) (\<lambda>insurer.
     if insurer = [] then Inl (Exc ValueError ''Insurer name is required'')
     else
     then_do (slice_of (get_or_empty row ''burger_combo_code'') 100) (\<lambda>code.
     Inr \<lparr>id' = claim_id,
          patient_name = take 255 patient,
          billed_amount = to_cents billed_amount,
          paid_amount = to_cents paid_amount,
          status = py_str status_value,
          insurer_name = take 255 insurer,
          discharge_date = discharge_date,
          burger_combo_code = Some code\<rparr>))))))))))))"

text \<open>One pass of the loop body: the \<^verbatim>\<open>try\<close> and its \<^verbatim>\<open>except Exception\<close>.\<close>

definition import_claim_csv_row :: "bool \<Rightarrow> nat \<Rightarrow> row \<Rightarrow> results \<times> store \<Rightarrow> results \<times> store" where
  "import_claim_csv_row append' row_num row st = (case st of (res, db) \<Rightarrow>
     (case claim_of_csv_row row row_num of
        Inl e \<Rightarrow> (add_error (''Row '' @ str_nat row_num @ '': '' @ str_exc e) res, db)
      | Inr new \<Rightarrow>
          (case get_or_create_claim new db of
             Inl e \<Rightarrow> (add_error (''Row '' @ str_nat row_num @ '': '' @ str_exc e) res, db)
           | Inr (created, db') \<Rightarrow>
               if created then (res\<lparr>claims_created := claims_created res + 1\<rparr>, db')
               else if \<not> append'
                 then (res\<lparr>claims_updated := claims_updated res + 1\<rparr>, save_claim new db')
               else (res, db'))))"

text \<open>
  The loop over \<^verbatim>\<open>enumerate(reader, start=2)\<close> with its counter \<^verbatim>\<open>row_count\<close>; the reader
  raises its \<^verbatim>\<open>csv.Error\<close>, if it has one, when asked for the row after the last.
\<close>

fun claims_csv_loop :: "bool \<Rightarrow> string option \<Rightarrow> nat \<Rightarrow> nat \<Rightarrow> row list \<Rightarrow> results \<times> store \<Rightarrow> outcome \<times> results \<times> store" where
  "claims_csv_loop append' err row_num row_count [] st =
     (case err of None \<Rightarrow> (Done, st) | Some msg \<Rightarrow> (Raised (Exc CsvError msg), st))"
| "claims_csv_loop append' err row_num row_count (row # rows) st =
     (if MAX_ROWS < row_count + 1
      then (Done, add_error (''File exceeds maximum allowed rows ('' @ str_nat MAX_ROWS @ '')'') (fst st), snd st)
      else claims_csv_loop append' err (row_num + 1) (row_count + 1) rows
             (import_claim_csv_row append' row_num row st))"

definition import_claims_csv :: "upload option \<Rightarrow> bool \<Rightarrow> results \<times> store \<Rightarrow> outcome \<times> results \<times> store" where
  "import_claims_csv file append' st = (case file of
       None \<Rightarrow> (Raised (none_has_no ''seek''), st)
     | Some u \<Rightarrow> (case decode_error u of
           Some msg \<Rightarrow> (Raised (Exc UnicodeDecodeError msg), st)
         | None \<Rightarrow> claims_csv_loop append' (csv_error u) 2 0 (csv_rows u) st))"

subsection \<open>\<^verbatim>\<open>DataImporter._import_claims_json\<close>\<close>

text \<open>\<^verbatim>\<open>len(data)\<close>, \<^verbatim>\<open>data[:n]\<close> and iteration over the decoded document.\<close>

fun py_len :: "json_doc \<Rightarrow> py_exc + nat" where
  "py_len (JArray xs) = Inr (length xs)"
| "py_len (JDict ks) = Inr (length ks)"
| "py_len (JText t) = Inr (length t)"
| "py_len (JScalar ty) = Inl (Exc TypeError (''object of type '' @ py_repr ty @ '' has no len()''))"

fun slice_doc :: "json_doc \<Rightarrow> nat \<Rightarrow> py_exc + json_doc" where
  "slice_doc (JArray xs) n = Inr (JArray (take n xs))"
| "slice_doc (JDict ks) n = Inl (Exc TypeError (''unhashable type: '' @ py_repr ''slice''))"
| "slice_doc (JText t) n = Inr (JText (take n t))"
| "slice_doc (JScalar ty) n = Inl (Exc TypeError (py_repr ty @ '' object is not subscriptable''))"

text \<open>The text of the \<^verbatim>\<open>TypeError\<close> of \<^verbatim>\<open>item['key']\<close> on a value that is not an object.\<close>

definition subscript_error :: "string \<Rightarrow> py_exc" where
  "subscript_error ty = Exc TypeError
     (if ty = ''list'' then ''list indices must be integers or slices, not str''
      else if ty = ''str'' then ''string indices must be integers, not '' @ py_repr ''str''
      else py_repr ty @ '' object is not subscriptable'')"

fun items_of :: "json_doc \<Rightarrow> py_exc + item list" where
  "items_of (JArray xs) = Inr xs"
| "items_of (JDict ks) = Inr (map (\<lambda>k. INonObj ''str'') ks)"
| "items_of (JText t) = Inr (map (\<lambda>c. INonObj ''str'') t)"
| "items_of (JScalar ty) = Inl (Exc TypeError (py_repr ty @ '' object is not iterable''))"

definition claim_of_json_item :: "item \<Rightarrow> nat \<Rightarrow> py_exc + claim" where
  "claim_of_json_item it i = (case it of
       INonObj ty \<Rightarrow> Inl (subscript_error ty)
     | IObj item \<Rightarrow>
     then_do (getitem item ''id'') (\<lambda>id_value.
     then_do (py_int id_value) (\<lambda>claim_id.
     if claim_id \<le> 0 then Inl (Exc ValueError (''Invalid claim ID: '' @ str_int claim_id))
     else
     then_do (getitem item ''discharge_date'') (\<lambda>date_str.
     then_do (parse_date date_str (''Item '' @ str_nat (i + 1))) (\<lambda>discharge_date.
     then_do (getitem item ''billed_amount'') (\<lambda>billed_value.
     then_do (safe_decimal_conversion billed_value ''billed_amount'') (\<lambda>billed_amount.
     then_do (getitem item ''paid_amount'') (\<lambda>paid_value.
     then_do (safe_decimal_conversion paid_value ''paid_amount'') (\<lambda>paid_amount.
     then_do (getitem item ''status'') (\<lambda>status_value.
     if not_in_statuses status_value
       then Inl (Exc ValueError (''Invalid status: '' @ py_str status_value
              @ ''. Must be one of: '' @ str_valid_statuses))
     else
     then_do (strip_of (get_or_empty item ''patient_name'')) (\<lambda>patient.
     if patient = [] then Inl (Exc ValueError ''Patient name is required'')
     else
     then_do (strip_of (get_or_empty item ''insurer_name'')) (\<lambda>insurer.
     if insurer = [] then Inl (Exc ValueError ''Insurer name is required'')
     else
     then_do (slice_of (get_or_empty item ''burger_combo_code'') 100) (\<lambda>code.
     Inr \<lparr>id' = claim_id,
          patient_name = take 255 patient,
          billed_amount = to_cents billed_amount,
          paid_amount = to_cents paid_amount,
          status = py_str status_value,
          insurer_name = take 255 insurer,
          discharge_date = discharge_date,
          burger_combo_code = Some code\<rparr>)))))))))))))"

definition import_claim_json_item :: "bool \<Rightarrow> nat \<Rightarrow> item \<Rightarrow> results \<times> store \<Rightarrow> results \<times> store" where
  "import_claim_json_item append' i it st = (case st of (res, db) \<Rightarrow>
     (case claim_of_json_item it i of
        Inl e \<Rightarrow> (add_error (''Item '' @ str_nat (i + 1) @ '': '' @ str_exc e) res, db)
      | Inr new \<Rightarrow>
          (case get_or_create_claim new db of
             Inl e \<Rightarrow> (add_error (''Item '' @ str_nat (i + 1) @ '': '' @ str_exc e) res, db)
           | Inr (created, db') \<Rightarrow>
               if created then (res\<lparr>claims_created := claims_created res + 1\<rparr>, db')
               else if \<not> append'
                 then (res\<lparr>claims_updated := claims_updated res + 1\<rparr>, save_claim new db')
               else (res, db'))))"

text \<open>The loop over \<^verbatim>\<open>enumerate(data)\<close>.\<close>

fun claims_json_loop :: "bool \<Rightarrow> nat \<Rightarrow> item list \<Rightarrow> results \<times> store \<Rightarrow> results \<times> store" where
  "claims_json_loop append' i [] st = st"
| "claims_json_loop append' i (it # items) st =
     claims_json_loop append' (i + 1) items (import_claim_json_item append' i it st)"

definition import_claims_json :: "upload option \<Rightarrow> bool \<Rightarrow> results \<times> store \<Rightarrow> outcome \<times> results \<times> store" where
  "import_claims_json file append' st = (case file of
       None \<Rightarrow> (Raised (none_has_no ''seek''), st)
     | Some u \<Rightarrow> (case decode_error u of
           Some msg \<Rightarrow> (Raised (Exc UnicodeDecodeError msg), st)
         | None \<Rightarrow> (case json_doc u of
               Inl msg \<Rightarrow> (Raised (Exc JSONDecodeError msg), st)
             | Inr data0 \<Rightarrow> (case py_len data0 of
                   Inl e \<Rightarrow> (Raised e, st)
                 | Inr n \<Rightarrow>
                     (let st1 = (if MAX_ROWS < n
                            then (add_error (''JSON file exceeds maximum allowed rows (''
                                    @ str_nat MAX_ROWS @ '')'') (fst st), snd st)
                            else st)
                      in case (if MAX_ROWS < n then slice_doc data0 MAX_ROWS else Inr data0) of
                           Inl e \<Rightarrow> (Raised e, st1)
                         | Inr data \<Rightarrow> (case items_of data of
                               Inl e \<Rightarrow> (Raised e, st1)
                             | Inr items \<Rightarrow> (Done, claims_json_loop append' 0 items st1)))))))"

subsection \<open>\<^verbatim>\<open>DataImporter._import_details_csv\<close> and \<^verbatim>\<open>_import_details_json\<close>\<close>

text \<open>
  What the store writes for a detail: \<^verbatim>\<open>cpt_codes\<close> is a non-null character column, so
  \<^verbatim>\<open>None\<close> violates its constraint and any other value is stored as its text;
  \<^verbatim>\<open>denial_reason\<close> is \<^verbatim>\<open>row.get('denial_reason', '') or None\<close>.
\<close>

definition detail_values :: "int \<Rightarrow> pyval \<Rightarrow> pyval \<Rightarrow> py_exc + claim_detail" where
  "detail_values cid cpt reason =
     (if cpt = PNone
      then Inl (Exc IntegrityError ''NOT NULL constraint failed: claims_claimdetail.cpt_codes'')
      else Inr \<lparr>claim_id = cid, cpt_codes = py_str cpt,
                denial_reason = (if truthy reason then Some (py_str reason) else None)\<rparr>)"

datatype action = Created | Updated | Skipped | NotFound int | SaveFailed py_exc

text \<open>
  The body of the \<^verbatim>\<open>try\<close> of a details row: \<^verbatim>\<open>NotFound\<close> is the inner
  \<^verbatim>\<open>except Claim.DoesNotExist\<close>, which records its own message and continues.
  \<^verbatim>\<open>get_or_create\<close> inserts inside a savepoint of its own, so an insertion that the store
  refuses is an exception like any other. \<^verbatim>\<open>detail.save()\<close> runs in the transaction of
  \<^verbatim>\<open>import_data\<close> itself: when the store refuses the update, the exception is raised and the
  transaction is marked for rollback, which is \<^verbatim>\<open>SaveFailed\<close>.
\<close>

definition detail_row_body :: "bool \<Rightarrow> row \<Rightarrow> store \<Rightarrow> py_exc + (action \<times> store)" where
  "detail_row_body append' row db =
     then_do (getitem row ''claim_id'') (\<lambda>id_value.
     then_do (py_int id_value) (\<lambda>cid.
     case get_claim db cid of
       None \<Rightarrow> Inr (NotFound cid, db)
     | Some claim \<Rightarrow>
         then_do (getitem row ''cpt_codes'') (\<lambda>cpt.
         case get_detail db cid of
           None \<Rightarrow>
             then_do (detail_values cid cpt (get_or_empty row ''denial_reason'')) (\<lambda>new.
               Inr (Created, db\<lparr>details := details db @ [new]\<rparr>))
         | Some detail \<Rightarrow>
             if \<not> append'
             then (case detail_values cid cpt (get_or_empty row ''denial_reason'') of
                     Inl e \<Rightarrow> Inr (SaveFailed e, db)
                   | Inr new \<Rightarrow> Inr (Updated, save_detail new db))
             else Inr (Skipped, db))))"

definition detail_step :: "string \<Rightarrow> py_exc + (action \<times> store) \<Rightarrow> results \<times> store \<Rightarrow> results \<times> store" where
  "detail_step tag r st = (case st of (res, db) \<Rightarrow> (case r of
       Inl e \<Rightarrow> (add_error (tag @ '': '' @ str_exc e) res, db)
     | Inr (NotFound cid, db') \<Rightarrow> (add_error (tag @ '': Claim '' @ str_int cid @ '' not found'') res, db')
     | Inr (Created, db') \<Rightarrow> (res\<lparr>details_created := details_created res + 1\<rparr>, db')
     | Inr (Updated, db') \<Rightarrow> (res\<lparr>details_updated := details_updated res + 1\<rparr>, db')
     | Inr (Skipped, db') \<Rightarrow> (res, db')
     | Inr (SaveFailed e, db') \<Rightarrow> (add_error (tag @ '': '' @ str_exc e) res, db')))"

text \<open>Whether the body of a row has marked the transaction for rollback.\<close>

definition marks_rollback :: "py_exc + (action \<times> store) \<Rightarrow> bool" where
  "marks_rollback r = (case r of Inr (SaveFailed e, db') \<Rightarrow> True | _ \<Rightarrow> False)"

text \<open>
  A details row in a transaction marked for rollback: the first query,
  \<^verbatim>\<open>Claim.objects.get\<close>, raises \<^verbatim>\<open>TransactionManagementError\<close>, unless reading the id has
  raised before it.
\<close>

definition broken_transaction :: py_exc where
  "broken_transaction = Exc TransactionManagementError
     (''An error occurred in the current transaction. You can't execute queries ''
      @ ''until the end of the 'atomic' block.'')"

definition doomed_detail_row :: "string \<Rightarrow> py_exc + row \<Rightarrow> results \<times> store \<Rightarrow> results \<times> store" where
  "doomed_detail_row tag r st =
     (case then_do r (\<lambda>row. then_do (getitem row ''claim_id'') py_int) of
        Inl e \<Rightarrow> (add_error (tag @ '': '' @ str_exc e) (fst st), snd st)
      | Inr cid \<Rightarrow> (add_error (tag @ '': '' @ str_exc broken_transaction) (fst st), snd st))"

definition import_detail_csv_row :: "bool \<Rightarrow> nat \<Rightarrow> row \<Rightarrow> results \<times> store \<Rightarrow> results \<times> store" where
  "import_detail_csv_row append' row_num row st =
     detail_step (''Row '' @ str_nat row_num) (detail_row_body append' row (snd st)) st"

text \<open>
  The loop over \<^verbatim>\<open>enumerate(reader, start=2)\<close>, and what is left of it once a row has
  marked the transaction for rollback.
\<close>

fun details_csv_doomed :: "string option \<Rightarrow> nat \<Rightarrow> row list \<Rightarrow> results \<times> store \<Rightarrow> outcome \<times> results \<times> store" where
  "details_csv_doomed err row_num [] st =
     (case err of None \<Rightarrow> (NeedsRollback, st) | Some msg \<Rightarrow> (Raised (Exc CsvError msg), st))"
| "details_csv_doomed err row_num (row # rows) st =
     details_csv_doomed err (row_num + 1) rows
       (doomed_detail_row (''Row '' @ str_nat row_num) (Inr row) st)"

fun details_csv_loop :: "bool \<Rightarrow> string option \<Rightarrow> nat \<Rightarrow> row list \<Rightarrow> results \<times> store \<Rightarrow> outcome \<times> results \<times> store" where
  "details_csv_loop append' err row_num [] st =
     (case err of None \<Rightarrow> (Done, st) | Some msg \<Rightarrow> (Raised (Exc CsvError msg), st))"
| "details_csv_loop append' err row_num (row # rows) st =
     (if marks_rollback (detail_row_body append' row (snd st))
      then details_csv_doomed err (row_num + 1) rows (import_detail_csv_row append' row_num row st)
      else details_csv_loop append' err (row_num + 1) rows
             (import_detail_csv_row append' row_num row st))"

definition import_details_csv :: "upload option \<Rightarrow> bool \<Rightarrow> results \<times> store \<Rightarrow> outcome \<times> results \<times> store" where
  "import_details_csv file append' st = (case file of
       None \<Rightarrow> (Raised (none_has_no ''seek''), st)
     | Some u \<Rightarrow> (case decode_error u of
           Some msg \<Rightarrow> (Raised (Exc UnicodeDecodeError msg), st)
         | None \<Rightarrow> details_csv_loop append' (csv_error u) 2 (csv_rows u) st))"

definition import_detail_json_item :: "bool \<Rightarrow> nat \<Rightarrow> item \<Rightarrow> results \<times> store \<Rightarrow> results \<times> store" where
  "import_detail_json_item append' i it st =
     detail_step (''Item '' @ str_nat (i + 1))
       (case it of INonObj ty \<Rightarrow> Inl (subscript_error ty)
                 | IObj item \<Rightarrow> detail_row_body append' item (snd st)) st"

fun details_json_doomed :: "nat \<Rightarrow> item list \<Rightarrow> results \<times> store \<Rightarrow> outcome \<times> results \<times> store" where
  "details_json_doomed i [] st = (NeedsRollback, st)"
| "details_json_doomed i (it # items) st =
     details_json_doomed (i + 1) items
       (doomed_detail_row (''Item '' @ str_nat (i + 1))
          (case it of INonObj ty \<Rightarrow> Inl (subscript_error ty) | IObj item \<Rightarrow> Inr item) st)"

fun details_json_loop :: "bool \<Rightarrow> nat \<Rightarrow> item list \<Rightarrow> results \<times> store \<Rightarrow> outcome \<times> results \<times> store" where
  "details_json_loop append' i [] st = (Done, st)"
| "details_json_loop append' i (it # items) st =
     (if (case it of INonObj ty \<Rightarrow> False
                   | IObj item \<Rightarrow> marks_rollback (detail_row_body append' item (snd st)))
      then details_json_doomed (i + 1) items (import_detail_json_item append' i it st)
      else details_json_loop append' (i + 1) items (import_detail_json_item append' i it st))"

definition import_details_json :: "upload option \<Rightarrow> bool \<Rightarrow> results \<times> store \<Rightarrow> outcome \<times> results \<times> store" where
  "import_details_json file append' st = (case file of
       None \<Rightarrow> (Raised (none_has_no ''seek''), st)
     | Some u \<Rightarrow> (case decode_error u of
           Some msg \<Rightarrow> (Raised (Exc UnicodeDecodeError msg), st)
         | None \<Rightarrow> (case json_doc u of
               Inl msg \<Rightarrow> (Raised (Exc JSONDecodeError msg), st)
             | Inr data \<Rightarrow> (case items_of data of
                   Inl e \<Rightarrow> (Raised e, st)
                 | Inr items \<Rightarrow> details_json_loop append' 0 items st))))"

subsection \<open>\<^verbatim>\<open>DataImporter.import_data\<close>\<close>

text \<open>
  \<^verbatim>\<open>with transaction.atomic():\<close> around a block: when the block raises, the store goes
  back to what it was on entry and the exception travels on; when the block ends in a
  transaction marked for rollback, the store goes back as well and nothing is raised. The
  importer's own \<^verbatim>\<open>results\<close> dictionary is ordinary memory and keeps what was written to
  it.
\<close>

definition atomic :: "(results \<times> store \<Rightarrow> outcome \<times> results \<times> store) \<Rightarrow> results \<times> store \<Rightarrow> outcome \<times> results \<times> store" where
  "atomic block st = (case block st of
       (Done, res', db') \<Rightarrow> (Done, res', db')
     | (Raised e, res', db') \<Rightarrow> (Raised e, res', snd st)
     | (NeedsRollback, res', db') \<Rightarrow> (Done, res', snd st))"

text \<open>The truth value of an upload, as in \<^verbatim>\<open>if details_file:\<close>.\<close>

definition file_given :: "upload option \<Rightarrow> bool" where
  "file_given file = (case file of None \<Rightarrow> False | Some u \<Rightarrow> fname u \<noteq> [])"

text \<open>
  The block inside the transaction. Only a details importer can leave the transaction
  marked for rollback, and nothing follows it in the block.
\<close>

definition import_block :: "upload option \<Rightarrow> upload option \<Rightarrow> string \<Rightarrow> string \<Rightarrow> results \<times> store \<Rightarrow> outcome \<times> results \<times> store" where
  "import_block claims_file details_file file_type operation st =
     (let st1 = (if operation = ''overwrite''
                 then (fst st, delete_all_claims (delete_all_details (snd st)))
                 else st)
      in if file_type = ''csv''
         then (case import_claims_csv claims_file (operation = ''add'') st1 of
                 (Raised e, st2) \<Rightarrow> (Raised e, st2)
               | (NeedsRollback, st2) \<Rightarrow> (NeedsRollback, st2)
               | (Done, st2) \<Rightarrow>
                   if file_given details_file
                   then import_details_csv details_file (operation = ''add'') st2
                   else (Done, st2))
         else (case import_claims_json claims_file (operation = ''add'') st1 of
                 (Raised e, st2) \<Rightarrow> (Raised e, st2)
               | (NeedsRollback, st2) \<Rightarrow> (NeedsRollback, st2)
               | (Done, st2) \<Rightarrow>
                   if file_given details_file
                   then import_details_json details_file (operation = ''add'') st2
                   else (Done, st2)))"

text \<open>
  \<^verbatim>\<open>import_data\<close>, called on an importer whose \<^verbatim>\<open>results\<close> are \<^verbatim>\<open>res\<close> and a store \<^verbatim>\<open>db\<close>.
  \<^verbatim>\<open>Raised e\<close> is the exception re-raised to the caller by the two handlers; \<^verbatim>\<open>Done\<close> is
  the normal return of \<^verbatim>\<open>self.results\<close>.
\<close>

definition import_data :: "results \<Rightarrow> store \<Rightarrow> upload option \<Rightarrow> upload option \<Rightarrow> string \<Rightarrow> string \<Rightarrow> outcome \<times> results \<times> store" where
  "import_data res db claims_file details_file file_type operation =
     (let attempt =
        (case validate_file claims_file of
           Inl e \<Rightarrow> (Raised e, res, db)
         | Inr ok \<Rightarrow>
             (case (if file_given details_file then validate_file details_file else Inr True) of
                Inl e \<Rightarrow> (Raised e, res, db)
              | Inr ok' \<Rightarrow>
                  atomic (import_block claims_file details_file file_type operation) (res, db)))
      in case attempt of
           (Raised e, res', db') \<Rightarrow>
             (Raised e,
              add_error ((if exc_kind e = ValidationError then ''Validation failed: ''
                          else ''Import failed: '') @ str_exc e) res',
              db')
         | (returned, res', db') \<Rightarrow> (Done, res', db'))"

section \<open>Export: \<^verbatim>\<open>export_claims_to_json\<close> and \<^verbatim>\<open>export_claims_to_csv\<close>\<close>

text \<open>\<^verbatim>\<open>value or ''\<close> on an optional string.\<close>

definition or_empty :: "string option \<Rightarrow> string" where
  "or_empty v = (case v of None \<Rightarrow> [] | Some s \<Rightarrow> s)"

definition claim_dict :: "claim \<Rightarrow> row" where
  "claim_dict c =
     [''id'' \<mapsto> PInt (id' c),
      ''patient_name'' \<mapsto> PStr (patient_name c),
      ''billed_amount'' \<mapsto> PStr (str_amount (billed_amount c)),
      ''paid_amount'' \<mapsto> PStr (str_amount (paid_amount c)),
      ''status'' \<mapsto> PStr (status c),
      ''insurer_name'' \<mapsto> PStr (insurer_name c),
      ''discharge_date'' \<mapsto> PStr (strftime (discharge_date c)),
      ''burger_combo_code'' \<mapsto> PStr (or_empty (burger_combo_code c))]"

definition detail_dict :: "claim_detail \<Rightarrow> row" where
  "detail_dict d =
     [''claim_id'' \<mapsto> PInt (claim_id d),
      ''cpt_codes'' \<mapsto> PStr (cpt_codes d),
      ''denial_reason'' \<mapsto> PStr (or_empty (denial_reason d))]"

text \<open>
  \<^verbatim>\<open>export_claims_to_json\<close>: one dictionary per claim, and one per claim that has details
  (\<^verbatim>\<open>hasattr(claim, 'details')\<close>), in the order of the claims.
\<close>

definition export_claims_to_json :: "store \<Rightarrow> row list \<times> row list" where
  "export_claims_to_json db =
     (map claim_dict (claims db),
      concat (map (\<lambda>c. case get_detail db (id' c) of None \<Rightarrow> [] | Some d \<Rightarrow> [detail_dict d])
                  (claims db)))"

text \<open>
  \<^verbatim>\<open>export_claims_to_csv\<close> writes the same dictionaries with \<^verbatim>\<open>csv.DictWriter\<close>, which
  writes every value as its text; the rows are given as \<^verbatim>\<open>csv.DictReader\<close> reads that text
  back. The details are those of the details table, in its order.
\<close>

definition as_text :: "row \<Rightarrow> row" where
  "as_text r = (\<lambda>k. map_option (\<lambda>v. PStr (py_str v)) (r k))"

definition export_claims_to_csv :: "store \<Rightarrow> row list \<times> row list" where
  "export_claims_to_csv db =
     (map (\<lambda>c. as_text (claim_dict c)) (claims db),
      map (\<lambda>d. as_text (detail_dict d)) (details db))"

section \<open>\<^verbatim>\<open>flag_claim\<close> of \<^verbatim>\<open>claims/views.py\<close>\<close>

text \<open>
  The response is a JSON error with its status code, or the rendered partial with the
  \<^verbatim>\<open>flag_created\<close> entry of its context. \<^verbatim>\<open>get_object_or_404\<close> raises \<^verbatim>\<open>Http404\<close>, which
  is not \<^verbatim>\<open>Claim.DoesNotExist\<close> and so reaches the outermost handler.
\<close>

datatype response = JsonResponse nat string | Rendered bool

definition get_flag :: "store \<Rightarrow> int \<Rightarrow> string \<Rightarrow> flag option" where
  "get_flag db cid user = find (\<lambda>f. flag_claim_id f = cid \<and> flag_user f = user) (flags db)"

text \<open>The flag that \<^verbatim>\<open>Flag.objects.get_or_create\<close> inserts, with the default reason.\<close>

definition new_flag :: "int \<Rightarrow> string \<Rightarrow> flag" where
  "new_flag cid user =
     \<lparr>flag_claim_id = cid, flag_user = user, flag_reason = ''Flagged for review''\<rparr>"

definition flag_claim :: "store \<Rightarrow> string \<Rightarrow> int \<Rightarrow> response \<times> store" where
  "flag_claim db user cid =
     (if cid \<le> 0 then (JsonResponse 400 ''Invalid claim ID'', db)
      else case get_claim db cid of
          None \<Rightarrow> (JsonResponse 500 ''An unexpected error occurred'', db)
        | Some claim \<Rightarrow> (case get_flag db cid user of
              Some f \<Rightarrow> (Rendered False, db)
            | None \<Rightarrow> (Rendered True, db\<lparr>flags := flags db @ [new_flag cid user]\<rparr>)))"

section \<open>The upload form and view: \<^verbatim>\<open>claims/forms.py\<close>, \<^verbatim>\<open>claims/data_views.py\<close>\<close>

definition ends_with :: "string \<Rightarrow> string \<Rightarrow> bool" where
  "ends_with suffix s = (length suffix \<le> length s \<and> drop (length s - length suffix) s = suffix)"

definition required_claim_fields :: "string list" where
  "required_claim_fields = [''id'', ''patient_name'', ''billed_amount'', ''paid_amount'',
     ''status'', ''insurer_name'', ''discharge_date'']"

definition required_detail_fields :: "string list" where
  "required_detail_fields = [''claim_id'', ''cpt_codes'']"

text \<open>\<^verbatim>\<open>", ".join(names)\<close>; the source joins a set, whose order Python leaves open.\<close>

fun join_names :: "string list \<Rightarrow> string" where
  "join_names [] = []"
| "join_names [n] = n"
| "join_names (n # m # ns) = n @ '', '' @ join_names (m # ns)"

text \<open>
  The content check of both \<^verbatim>\<open>clean_\<close> methods, which differ in the required names and
  in their messages (\<^verbatim>\<open>what\<close> is the word the messages use for the file). A
  \<^verbatim>\<open>forms.ValidationError\<close> raised inside the \<^verbatim>\<open>try\<close> is caught by its last handler and
  raised again with the prefix \<^verbatim>\<open>Error validating\<close>.
\<close>

definition rewrapped :: "string \<Rightarrow> string \<Rightarrow> py_exc" where
  "rewrapped prefix msg = validation_error (prefix @ str_exc (validation_error msg))"

definition check_csv_headers :: "string list \<Rightarrow> string \<Rightarrow> string \<Rightarrow> string \<Rightarrow> upload \<Rightarrow> py_exc + bool" where
  "check_csv_headers required prefix missing_msg encoding_msg u =
     (case decode_error u of
        Some m \<Rightarrow> Inl (validation_error encoding_msg)
      | None \<Rightarrow>
          (let headers = (case csv_fieldnames u of None \<Rightarrow> [] | Some h \<Rightarrow> h);
               missing_headers = filter (\<lambda>k. k \<notin> set headers) required
           in if missing_headers \<noteq> []
              then Inl (rewrapped prefix (missing_msg @ join_names missing_headers))
              else Inr True))"

definition check_json_fields :: "string list \<Rightarrow> string \<Rightarrow> string \<Rightarrow> string \<Rightarrow> string \<Rightarrow> string \<Rightarrow> upload \<Rightarrow> py_exc + bool" where
  "check_json_fields required prefix list_msg missing_msg json_msg encoding_msg u =
     (case decode_error u of
        Some m \<Rightarrow> Inl (validation_error encoding_msg)
      | None \<Rightarrow> (case json_doc u of
            Inl m \<Rightarrow> Inl (validation_error json_msg)
          | Inr (JArray []) \<Rightarrow> Inl (rewrapped prefix list_msg)
          | Inr (JArray (IObj first_item # rest)) \<Rightarrow>
              (let missing_fields = filter (\<lambda>k. first_item k = None) required
               in if missing_fields \<noteq> []
                  then Inl (rewrapped prefix (missing_msg @ join_names missing_fields))
                  else Inr True)
          | Inr (JArray (INonObj ty # rest)) \<Rightarrow>
              Inl (validation_error (prefix @ py_repr ty @ '' object has no attribute ''
                     @ py_repr ''keys''))
          | Inr other \<Rightarrow> Inl (rewrapped prefix list_msg)))"

text \<open>\<^verbatim>\<open>DataUploadForm.clean_claims_file\<close>.\<close>

definition clean_claims_file :: "string \<Rightarrow> upload option \<Rightarrow> py_exc + upload option" where
  "clean_claims_file file_type file = (case file of
       None \<Rightarrow> Inr file
     | Some u \<Rightarrow>
         if fname u = [] then Inr file
         else if file_type = ''csv'' \<and> \<not> ends_with ''.csv'' (map lower (fname u))
           then Inl (validation_error ''Please upload a CSV file when CSV format is selected.'')
         else if file_type = ''json'' \<and> \<not> ends_with ''.json'' (map lower (fname u))
           then Inl (validation_error ''Please upload a JSON file when JSON format is selected.'')
         else then_do
           (if file_type = ''csv''
            then check_csv_headers required_claim_fields ''Error validating file: ''
                   ''Missing required columns: ''
                   ''File encoding error. Please use UTF-8 encoding.'' u
            else check_json_fields required_claim_fields ''Error validating file: ''
                   ''JSON file must contain a list of claim objects.''
                   ''Missing required fields in JSON: ''
                   ''Invalid JSON file format.''
                   ''File encoding error. Please use UTF-8 encoding.'' u)
           (\<lambda>ok. Inr file))"

text \<open>\<^verbatim>\<open>DataUploadForm.clean_claim_details_file\<close>.\<close>

definition clean_claim_details_file :: "string \<Rightarrow> upload option \<Rightarrow> py_exc + upload option" where
  "clean_claim_details_file file_type file = (case file of
       None \<Rightarrow> Inr file
     | Some u \<Rightarrow>
         if fname u = [] then Inr file
         else then_do
           (if file_type = ''csv''
            then check_csv_headers required_detail_fields ''Error validating details file: ''
                   ''Missing required columns in details file: ''
                   ''File encoding error in details file. Please use UTF-8 encoding.'' u
            else check_json_fields required_detail_fields ''Error validating details file: ''
                   ''JSON details file must contain a list of detail objects.''
                   ''Missing required fields in details JSON: ''
                   ''Invalid JSON format in details file.''
                   ''File encoding error in details file. Please use UTF-8 encoding.'' u)
           (\<lambda>ok. Inr file))"

text \<open>The posted form: the two choices and the two files.\<close>

record post =
  post_operation :: string
  post_file_type :: string
  post_claims_file :: "upload option"
  post_details_file :: "upload option"

text \<open>
  Modelled from the field declarations of \<^verbatim>\<open>DataUploadForm\<close>: a \<^verbatim>\<open>ChoiceField\<close> accepts
  one of its choices; a \<^verbatim>\<open>FileField\<close> accepts a named file of at least one byte, and no
  file only when it is declared \<^verbatim>\<open>required=False\<close>.
\<close>

definition file_field_ok :: "bool \<Rightarrow> upload option \<Rightarrow> bool" where
  "file_field_ok required file = (case file of
       None \<Rightarrow> \<not> required
     | Some u \<Rightarrow> fname u \<noteq> [] \<and> 0 < fsize u)"

text \<open>\<^verbatim>\<open>form.is_valid()\<close>: every field is accepted and no \<^verbatim>\<open>clean_\<close> method raises.\<close>

definition is_valid :: "post \<Rightarrow> bool" where
  "is_valid p =
     (post_operation p \<in> set [''add'', ''overwrite'']
      \<and> post_file_type p \<in> set [''csv'', ''json'']
      \<and> file_field_ok True (post_claims_file p)
      \<and> \<not> isl (clean_claims_file (post_file_type p) (post_claims_file p))
      \<and> file_field_ok False (post_details_file p)
      \<and> \<not> isl (clean_claim_details_file (post_file_type p) (post_details_file p)))"

text \<open>
  \<^verbatim>\<open>data_upload_view\<close> on a POST request: what the view reports (the form's errors, the
  error message of a failed import, or the results) and the store afterwards.
\<close>

datatype view_result = FormErrors | ImportFailed string | Imported results

definition data_upload_view :: "store \<Rightarrow> post \<Rightarrow> view_result \<times> store" where
  "data_upload_view db p =
     (if is_valid p
      then (case import_data init_results db (post_claims_file p) (post_details_file p)
                   (post_file_type p) (post_operation p) of
              (Raised e, res, db') \<Rightarrow> (ImportFailed (''Import failed: '' @ str_exc e), db')
            | (returned, res, db') \<Rightarrow> (Imported res, db'))
      else (FormErrors, db))"

text \<open>
  Modelled from the Python libraries: what they make of a file of zero bytes. The text
  decodes, the CSV reader finds no header and no row, and \<^verbatim>\<open>json.loads('')\<close> fails.
\<close>

definition empty_upload :: "string \<Rightarrow> upload" where
  "empty_upload name = \<lparr>fname = name, fsize = 0, decode_error = None, csv_fieldnames = None,
     csv_rows = [], csv_error = None,
     json_doc = Inl ''Expecting value: line 1 column 1 (char 0)''\<rparr>"

section \<open>Notions used to state the properties\<close>

text \<open>
  The create-or-update decision that the two claim importers share, as the design notes
  of the specification describe it: fetch by id; if absent, insert; if present and the
  mode is not additive, overwrite in place; a failed row is recorded under its tag.
\<close>

definition reconcile :: "bool \<Rightarrow> string \<Rightarrow> py_exc + claim \<Rightarrow> results \<times> store \<Rightarrow> results \<times> store" where
  "reconcile append' tag r st = (case then_do r (\<lambda>new. then_do (get_or_create_claim new (snd st))
                                       (\<lambda>(created, db'). Inr (new, created, db'))) of
       Inl e \<Rightarrow> (add_error (tag @ '': '' @ str_exc e) (fst st), snd st)
     | Inr (new, created, db') \<Rightarrow>
         if created then ((fst st)\<lparr>claims_created := claims_created (fst st) + 1\<rparr>, db')
         else if append' then (fst st, db')
         else ((fst st)\<lparr>claims_updated := claims_updated (fst st) + 1\<rparr>, save_claim new db'))"

text \<open>At most one flag for each pair of a claim and a user.\<close>

definition flags_unique :: "store \<Rightarrow> bool" where
  "flags_unique db = distinct (map (\<lambda>f. (flag_claim_id f, flag_user f)) (flags db))"

definition flags_of :: "store \<Rightarrow> int \<Rightarrow> string \<Rightarrow> flag list" where
  "flags_of db cid user = filter (\<lambda>f. flag_claim_id f = cid \<and> flag_user f = user) (flags db)"

definition empty_store :: store where
  "empty_store = \<lparr>claims = [], details = [], flags = [], claim_notes = []\<rparr>"

text \<open>A claim used in the examples.\<close>

definition ex_claim :: claim where
  "ex_claim = \<lparr>id' = 7, patient_name = ''Jane Doe'', billed_amount = 120000,
     paid_amount = 90000, status = ''Paid'', insurer_name = ''Acme'',
     discharge_date = Date 2024 3 15, burger_combo_code = Some []\<rparr>"

text \<open>
  The three steps of the block of \<^verbatim>\<open>import_data\<close>: the deletions of the overwrite mode,
  the claims file, the details file.
\<close>

definition start_phase :: "string \<Rightarrow> results \<times> store \<Rightarrow> results \<times> store" where
  "start_phase operation st =
     (if operation = ''overwrite''
      then (fst st, delete_all_claims (delete_all_details (snd st))) else st)"

definition claims_phase :: "string \<Rightarrow> upload option \<Rightarrow> bool \<Rightarrow> results \<times> store \<Rightarrow> outcome \<times> results \<times> store" where
  "claims_phase file_type file append' st =
     (if file_type = ''csv'' then import_claims_csv file append' st
      else import_claims_json file append' st)"

definition details_phase :: "string \<Rightarrow> upload option \<Rightarrow> bool \<Rightarrow> results \<times> store \<Rightarrow> outcome \<times> results \<times> store" where
  "details_phase file_type file append' st =
     (if file_given file
      then (if file_type = ''csv'' then import_details_csv file append' st
            else import_details_json file append' st)
      else (Done, st))"

text \<open>A row, as either reader yields it, with the id of \<^const>\<open>ex_claim\<close> and another name.\<close>

definition ex_row :: row where
  "ex_row = [''id'' \<mapsto> PStr ''7'', ''patient_name'' \<mapsto> PStr ''Jane Roe'',
     ''billed_amount'' \<mapsto> PStr ''$1,200.00'', ''paid_amount'' \<mapsto> PStr ''900'',
     ''status'' \<mapsto> PStr ''Paid'', ''insurer_name'' \<mapsto> PStr ''Acme'',
     ''discharge_date'' \<mapsto> PStr ''03/15/2024'']"

text \<open>An upload of the given name that both readers read as the given rows.\<close>

definition rows_upload :: "string \<Rightarrow> row list \<Rightarrow> upload" where
  "rows_upload name rows = \<lparr>fname = name, fsize = 1, decode_error = None,
     csv_fieldnames = Some required_claim_fields, csv_rows = rows, csv_error = None,
     json_doc = Inr (JArray (map IObj rows))\<rparr>"

definition ex_store :: store where
  "ex_store = empty_store\<lparr>claims := [ex_claim]\<rparr>"

text \<open>A details row that names a claim the example store does not hold.\<close>

definition ex_detail_row :: row where
  "ex_detail_row = [''claim_id'' \<mapsto> PStr ''5'', ''cpt_codes'' \<mapsto> PStr ''99213'']"


subsection \<open>Comparing the two readers\<close>







subsection \<open>The value of a decimal\<close>

text \<open>
  The number a finite decimal stands for, and what the specification of the amount
  coercion says of a decimal: that it is negative, and that it exceeds 9,999,999.99.
\<close>

definition dec_real :: "bool \<Rightarrow> nat \<Rightarrow> int \<Rightarrow> real" where
  "dec_real sg c e = (if sg then - 1 else 1) * real c * 10 powi e"

fun is_nan :: "decimal \<Rightarrow> bool" where
  "is_nan (NaN sg g p) = True"
| "is_nan d = False"

fun dec_negative :: "decimal \<Rightarrow> bool" where
  "dec_negative (Finite sg c e) = (dec_real sg c e < 0)"
| "dec_negative (Infinity sg) = sg"
| "dec_negative (NaN sg g p) = False"

fun dec_too_large :: "decimal \<Rightarrow> bool" where
  "dec_too_large (Finite sg c e) = (999999999 / 100 < dec_real sg c e)"
| "dec_too_large (Infinity sg) = (\<not> sg)"
| "dec_too_large (NaN sg g p) = False"

subsection \<open>Stores that the import pipeline accepts back\<close>

text \<open>
  A stored claim that passes the row validation of the importers when it is exported and
  read again: positive id, trimmed non-empty names within 255 characters, amounts between
  0 and 9,999,999.99, a status of the enumeration, a calendar date with a year of four
  digits, a code within 100 characters.
\<close>

definition valid_claim :: "claim \<Rightarrow> bool" where
  "valid_claim c =
     (0 < id' c
      \<and> patient_name c \<noteq> [] \<and> strip (patient_name c) = patient_name c
      \<and> length (patient_name c) \<le> 255
      \<and> insurer_name c \<noteq> [] \<and> strip (insurer_name c) = insurer_name c
      \<and> length (insurer_name c) \<le> 255
      \<and> 0 \<le> billed_amount c \<and> billed_amount c \<le> 999999999
      \<and> 0 \<le> paid_amount c \<and> paid_amount c \<le> 999999999
      \<and> status c \<in> set valid_statuses
      \<and> (case discharge_date c of Date y m d \<Rightarrow> 1000 \<le> y \<and> valid_date y m d)
      \<and> length (or_empty (burger_combo_code c)) \<le> 100)"

text \<open>What the import writes for the code and the denial reason: never null, never empty.\<close>

definition norm_claim :: "claim \<Rightarrow> claim" where
  "norm_claim c = c\<lparr>burger_combo_code := Some (or_empty (burger_combo_code c))\<rparr>"

definition norm_detail :: "claim_detail \<Rightarrow> claim_detail" where
  "norm_detail d =
     d\<lparr>denial_reason := (if denial_reason d = Some [] then None else denial_reason d)\<rparr>"

text \<open>
  A store as the database keeps it (unique claim ids, one detail per claim, every detail
  on a stored claim) whose claims are all valid and fit under the row ceiling.
\<close>

definition valid_store :: "store \<Rightarrow> bool" where
  "valid_store db =
     (distinct (map id' (claims db))
      \<and> distinct (map claim_id (details db))
      \<and> list_all (\<lambda>d. claim_id d \<in> set (map id' (claims db))) (details db)
      \<and> list_all valid_claim (claims db)
      \<and> length (claims db) \<le> MAX_ROWS)"

text \<open>A claim with a status outside the enumeration, as the command-line loader stores one.\<close>

definition ex_pending :: claim where
  "ex_pending = ex_claim\<lparr>status := ''Pending''\<rparr>"


subsection \<open>Further examples\<close>

text \<open>The row of \<^const>\<open>ex_row\<close> with a status outside the enumeration.\<close>

definition ex_pending_row :: row where
  "ex_pending_row = ex_row(''status'' \<mapsto> PStr ''Pending'')"




text \<open>
  A pipe-delimited claims file that holds its header line and no record, as the readers
  see it: 77 bytes, the header, no row; as JSON the text does not parse.
\<close>

definition header_only :: upload where
  "header_only = \<lparr>fname = ''claims.csv'', fsize = 77, decode_error = None,
     csv_fieldnames = Some required_claim_fields, csv_rows = [], csv_error = None,
     json_doc = Inl ''Expecting value: line 1 column 1 (char 0)''\<rparr>"



section \<open>Properties\<close>

lemma then_do_Inr: "then_do m f = Inr y \<longleftrightarrow> (\<exists>x. m = Inr x \<and> f x = Inr y)"
  by (cases m) (simp_all add: then_do_def)

lemma detail_row_body_frame:
  "detail_row_body a row db = Inr (act, db') \<Longrightarrow>
     claims db' = claims db \<and> flags db' = flags db \<and> claim_notes db' = claim_notes db"
  unfolding detail_row_body_def
  by (auto simp: then_do_Inr save_detail_def split: option.splits if_splits sum.splits)

lemma detail_step_Inl: "detail_step t (Inl e) st = (add_error (t @ '': '' @ str_exc e) (fst st), snd st)"
  by (cases st) (simp add: detail_step_def)

lemma detail_step_Inr: "snd (detail_step t (Inr (act, db')) st) = db'"
  by (cases st; cases act) (simp_all add: detail_step_def)

lemma detail_step_body_frame:
  "claims (snd (detail_step t (detail_row_body a row (snd st)) st)) = claims (snd st)
   \<and> flags (snd (detail_step t (detail_row_body a row (snd st)) st)) = flags (snd st)
   \<and> claim_notes (snd (detail_step t (detail_row_body a row (snd st)) st)) = claim_notes (snd st)"
proof (cases "detail_row_body a row (snd st)")
  case (Inl e)
  then show ?thesis by (simp add: detail_step_Inl)
next
  case (Inr p)
  obtain act db' where p: "p = (act, db')" by (cases p)
  with Inr detail_row_body_frame[of a row "snd st" act db'] show ?thesis
    by (simp add: detail_step_Inr)
qed

lemma nonobj_step_frame:
  "snd (detail_step t (Inl e) st) = snd st"
  by (simp add: detail_step_Inl)

lemma import_detail_csv_row_frame:
  "claims (snd (import_detail_csv_row a n row st)) = claims (snd st)
   \<and> flags (snd (import_detail_csv_row a n row st)) = flags (snd st)
   \<and> claim_notes (snd (import_detail_csv_row a n row st)) = claim_notes (snd st)"
  unfolding import_detail_csv_row_def by (rule detail_step_body_frame)

lemma import_detail_json_item_frame:
  "claims (snd (import_detail_json_item a i it st)) = claims (snd st)
   \<and> flags (snd (import_detail_json_item a i it st)) = flags (snd st)
   \<and> claim_notes (snd (import_detail_json_item a i it st)) = claim_notes (snd st)"
  unfolding import_detail_json_item_def
  by (cases it) (simp_all add: detail_step_body_frame detail_step_Inl)

lemma doomed_detail_row_store: "snd (doomed_detail_row t r st) = snd st"
  by (simp add: doomed_detail_row_def split: sum.splits)

lemma details_csv_doomed_store: "snd (snd (details_csv_doomed err n rows st)) = snd st"
proof (induction rows arbitrary: n st)
  case Nil
  then show ?case by (simp split: option.splits)
next
  case (Cons row rows)
  show ?case using Cons[of "n + 1" "doomed_detail_row (''Row '' @ str_nat n) (Inr row) st"]
    by (simp add: doomed_detail_row_store)
qed

lemma details_json_doomed_store: "snd (snd (details_json_doomed i items st)) = snd st"
proof (induction items arbitrary: i st)
  case Nil
  then show ?case by simp
next
  case (Cons it items)
  show ?case
    using Cons[of "i + 1" "doomed_detail_row (''Item '' @ str_nat (i + 1))
          (case it of INonObj ty \<Rightarrow> Inl (subscript_error ty) | IObj item \<Rightarrow> Inr item) st"]
    by (simp add: doomed_detail_row_store)
qed

lemma details_csv_loop_frame:
  "claims (snd (snd (details_csv_loop a err n rows st))) = claims (snd st)
   \<and> flags (snd (snd (details_csv_loop a err n rows st))) = flags (snd st)
   \<and> claim_notes (snd (snd (details_csv_loop a err n rows st))) = claim_notes (snd st)"
proof (induction rows arbitrary: n st)
  case Nil
  then show ?case by (simp split: option.splits)
next
  case (Cons row rows)
  show ?case using Cons[of "n + 1" "import_detail_csv_row a n row st"]
    by (simp add: import_detail_csv_row_frame details_csv_doomed_store)
qed

lemma details_json_loop_frame:
  "claims (snd (snd (details_json_loop a i items st))) = claims (snd st)
   \<and> flags (snd (snd (details_json_loop a i items st))) = flags (snd st)
   \<and> claim_notes (snd (snd (details_json_loop a i items st))) = claim_notes (snd st)"
proof (induction items arbitrary: i st)
  case Nil
  then show ?case by simp
next
  case (Cons it items)
  show ?case using Cons[of "i + 1" "import_detail_json_item a i it st"]
    by (simp add: import_detail_json_item_frame details_json_doomed_store)
qed

lemma import_claim_csv_row_reconcile:
  "import_claim_csv_row a n row st = reconcile a (''Row '' @ str_nat n) (claim_of_csv_row row n) st"
  by (cases st)
     (auto simp: import_claim_csv_row_def reconcile_def then_do_def
           split: sum.splits prod.splits)

lemma import_claim_json_item_reconcile:
  "import_claim_json_item a i it st = reconcile a (''Item '' @ str_nat (i + 1)) (claim_of_json_item it i) st"
  by (cases st)
     (auto simp: import_claim_json_item_def reconcile_def then_do_def
           split: sum.splits prod.splits)

lemma get_or_create_claim_frame:
  "get_or_create_claim new db = Inr (created, db') \<Longrightarrow>
     details db' = details db \<and> flags db' = flags db \<and> claim_notes db' = claim_notes db"
  by (auto simp: get_or_create_claim_def split: option.splits if_splits)

lemma reconcile_frame:
  "details (snd (reconcile a t r st)) = details (snd st)
   \<and> flags (snd (reconcile a t r st)) = flags (snd st)
   \<and> claim_notes (snd (reconcile a t r st)) = claim_notes (snd st)"
  by (auto simp: reconcile_def save_claim_def then_do_def dest: get_or_create_claim_frame
           split: sum.splits prod.splits)

lemma claims_csv_loop_frame:
  "details (snd (snd (claims_csv_loop a err n c rows st))) = details (snd st)
   \<and> flags (snd (snd (claims_csv_loop a err n c rows st))) = flags (snd st)
   \<and> claim_notes (snd (snd (claims_csv_loop a err n c rows st))) = claim_notes (snd st)"
proof (induction rows arbitrary: n c st)
  case Nil
  then show ?case by (simp split: option.splits)
next
  case (Cons row rows)
  show ?case using Cons[of "n + 1" "c + 1" "import_claim_csv_row a n row st"]
    by (simp add: import_claim_csv_row_reconcile reconcile_frame)
qed

lemma claims_json_loop_frame:
  "details (snd (claims_json_loop a i items st)) = details (snd st)
   \<and> flags (snd (claims_json_loop a i items st)) = flags (snd st)
   \<and> claim_notes (snd (claims_json_loop a i items st)) = claim_notes (snd st)"
proof (induction items arbitrary: i st)
  case Nil
  then show ?case by simp
next
  case (Cons it items)
  show ?case using Cons[of "i + 1" "import_claim_json_item a i it st"]
    by (simp add: import_claim_json_item_reconcile reconcile_frame)
qed

lemma import_claims_csv_flags:
  "flags (snd (snd (import_claims_csv file a st))) = flags (snd st)"
  by (simp add: import_claims_csv_def claims_csv_loop_frame split: option.splits)

lemma import_claims_json_flags:
  "flags (snd (snd (import_claims_json file a st))) = flags (snd st)"
  by (auto simp: import_claims_json_def claims_json_loop_frame Let_def split: option.splits sum.splits)

lemma import_details_csv_flags:
  "flags (snd (snd (import_details_csv file a st))) = flags (snd st)"
  by (simp add: import_details_csv_def details_csv_loop_frame split: option.splits)

lemma import_details_json_flags:
  "flags (snd (snd (import_details_json file a st))) = flags (snd st)"
  by (auto simp: import_details_json_def details_json_loop_frame split: option.splits sum.splits)

lemma import_block_flags:
  "flags (snd (snd (import_block cf df ft op' st))) = (if op' = ''overwrite'' then [] else flags (snd st))"
proof -
  define st1 where "st1 = (if op' = ''overwrite''
                 then (fst st, delete_all_claims (delete_all_details (snd st)))
                 else st)"
  have f1: "flags (snd st1) = (if op' = ''overwrite'' then [] else flags (snd st))"
    by (simp add: st1_def delete_all_claims_def)
  show ?thesis
  proof (cases "ft = ''csv''")
    case True
    obtain out st2 where c: "import_claims_csv cf (op' = ''add'') st1 = (out, st2)"
      by (cases "import_claims_csv cf (op' = ''add'') st1")
    have "flags (snd st2) = flags (snd st1)"
      using import_claims_csv_flags[of cf "op' = ''add''" st1] c by simp
    with f1 c True show ?thesis
      using import_details_csv_flags[of df "op' = ''add''" st2]
      by (cases out) (auto simp: import_block_def st1_def[symmetric] Let_def)
  next
    case False
    obtain out st2 where c: "import_claims_json cf (op' = ''add'') st1 = (out, st2)"
      by (cases "import_claims_json cf (op' = ''add'') st1")
    have "flags (snd st2) = flags (snd st1)"
      using import_claims_json_flags[of cf "op' = ''add''" st1] c by simp
    with f1 c False show ?thesis
      using import_details_json_flags[of df "op' = ''add''" st2]
      by (cases out) (auto simp: import_block_def st1_def[symmetric] Let_def)
  qed
qed

lemma atomic_Raised: "fst (atomic block st) = Raised e \<Longrightarrow> snd (snd (atomic block st)) = snd st"
  by (auto simp: atomic_def split: prod.splits outcome.splits)

lemma atomic_cases:
  "atomic block st = block st
   \<or> (\<exists>e. fst (block st) = Raised e \<and> atomic block st = (Raised e, fst (snd (block st)), snd st))
   \<or> (fst (block st) = NeedsRollback \<and> atomic block st = (Done, fst (snd (block st)), snd st))"
  by (auto simp: atomic_def split: prod.splits outcome.splits)

lemma import_data_flags:
  "flags (snd (snd (import_data res db cf df ft op'))) = flags db
   \<or> flags (snd (snd (import_data res db cf df ft op'))) = []"
proof -
  let ?b = "import_block cf df ft op'"
  have a: "flags (snd (snd (atomic ?b (res, db)))) = flags db \<or> flags (snd (snd (atomic ?b (res, db)))) = []"
    using atomic_cases[of ?b "(res, db)"] import_block_flags[of cf df ft op' "(res, db)"]
    by (auto split: if_splits)
  show ?thesis
    unfolding import_data_def Let_def
    using a by (auto split: sum.splits prod.splits outcome.splits)
qed

lemma filter_key_distinct:
  "distinct (map k xs) \<Longrightarrow> length (filter (\<lambda>x. k x = v) xs) \<le> 1"
proof (induction xs)
  case Nil
  then show ?case by simp
next
  case (Cons x xs)
  show ?case
  proof (cases "k x = v")
    case True
    with Cons.prems have "v \<notin> k ` set xs" by auto
    then have "filter (\<lambda>x. k x = v) xs = []" by (auto simp: filter_empty_conv)
    with True show ?thesis by simp
  next
    case False
    with Cons show ?thesis by simp
  qed
qed

lemma find_filter_nonempty:
  "find P xs = Some y \<Longrightarrow> filter P xs \<noteq> []"
  by (induction xs) (auto split: if_splits)

lemma find_snoc:
  "find P (xs @ [x]) = (case find P xs of Some y \<Rightarrow> Some y | None \<Rightarrow> if P x then Some x else None)"
  by (induction xs) auto

lemma flags_of_key:
  "flags_of db cid user = filter (\<lambda>f. (flag_claim_id f, flag_user f) = (cid, user)) (flags db)"
  by (simp add: flags_of_def)

lemma flags_of_le_1: "flags_unique db \<Longrightarrow> length (flags_of db cid user) \<le> 1"
  unfolding flags_of_key flags_unique_def by (rule filter_key_distinct)

lemma flag_claim_cases:
  obtains (invalid) "cid \<le> 0" "flag_claim db user cid = (JsonResponse 400 ''Invalid claim ID'', db)"
  | (missing) "0 < cid" "get_claim db cid = None"
      "flag_claim db user cid = (JsonResponse 500 ''An unexpected error occurred'', db)"
  | (old) c f where "0 < cid" "get_claim db cid = Some c" "get_flag db cid user = Some f"
      "flag_claim db user cid = (Rendered False, db)"
  | (new) c where "0 < cid" "get_claim db cid = Some c" "get_flag db cid user = None"
      "flag_claim db user cid = (Rendered True, db\<lparr>flags := flags db @ [new_flag cid user]\<rparr>)"
  by (cases "cid \<le> 0"; cases "get_claim db cid"; cases "get_flag db cid user")
     (auto simp: flag_claim_def)

lemma get_flag_None_notin:
  "get_flag db cid user = None \<Longrightarrow> (cid, user) \<notin> (\<lambda>f. (flag_claim_id f, flag_user f)) ` set (flags db)"
  by (auto simp: get_flag_def find_None_iff)

lemma flag_claim_unique: "flags_unique db \<Longrightarrow> flags_unique (snd (flag_claim db user cid))"
proof (cases rule: flag_claim_cases[of cid db user])
  case (new c)
  assume "flags_unique db"
  with get_flag_None_notin[OF new(3)] new(4) show ?thesis
    by (simp add: flags_unique_def new_flag_def)
qed simp_all

lemma flag_claim_again:
  "flag_claim (snd (flag_claim db user cid)) user cid =
     (case fst (flag_claim db user cid) of
        Rendered b \<Rightarrow> (Rendered False, snd (flag_claim db user cid))
      | JsonResponse code msg \<Rightarrow> flag_claim db user cid)"
proof (cases rule: flag_claim_cases[of cid db user])
  case (old c f)
  then show ?thesis by simp
next
  case (new c)
  let ?db = "db\<lparr>flags := flags db @ [new_flag cid user]\<rparr>"
  have "get_claim ?db cid = Some c" using new(2) by (simp add: get_claim_def)
  moreover have "get_flag ?db cid user = Some (new_flag cid user)"
    using new(3) by (simp add: get_flag_def find_snoc new_flag_def)
  ultimately have "flag_claim ?db user cid = (Rendered False, ?db)"
    using new(1) by (simp add: flag_claim_def)
  with new(4) show ?thesis by simp
qed simp_all

lemma flag_claim_rendered_has_flag:
  assumes "fst (flag_claim db user cid) = Rendered b"
  shows "flags_of (snd (flag_claim db user cid)) cid user \<noteq> []"
proof (cases rule: flag_claim_cases[of cid db user])
  case (old c f)
  then show ?thesis
    by (auto simp: get_flag_def flags_of_def dest: find_filter_nonempty)
next
  case (new c)
  then show ?thesis by (simp add: flags_of_def new_flag_def)
qed (use assms in simp_all)

text \<open>
  C9. At most one flag exists for each (claim, user) pair, and the operations keep it so:
  \<^verbatim>\<open>flag_claim\<close> and \<^verbatim>\<open>import_data\<close> preserve the invariant; flagging a second time
  changes nothing in the store, and when the first attempt went through (the claim exists)
  the second one is rendered with \<^verbatim>\<open>flag_created = False\<close>, not as an error, and the
  pair has exactly one flag.
\<close>

theorem flag_claim_once:
  assumes "flags_unique db"
  shows "flags_unique (snd (flag_claim db user cid))
       \<and> flags_unique (snd (snd (import_data res db cf df ft op')))
       \<and> snd (flag_claim (snd (flag_claim db user cid)) user cid) = snd (flag_claim db user cid)
       \<and> (\<forall>b. fst (flag_claim db user cid) = Rendered b \<longrightarrow>
             fst (flag_claim (snd (flag_claim db user cid)) user cid) = Rendered False
             \<and> length (flags_of (snd (flag_claim db user cid)) cid user) = 1)"
proof (intro conjI allI impI)
  show u: "flags_unique (snd (flag_claim db user cid))"
    using assms by (rule flag_claim_unique)
  show "flags_unique (snd (snd (import_data res db cf df ft op')))"
    using import_data_flags[of res db cf df ft op'] assms
    by (auto simp: flags_unique_def)
  show "snd (flag_claim (snd (flag_claim db user cid)) user cid) = snd (flag_claim db user cid)"
    unfolding flag_claim_again
    by (cases rule: flag_claim_cases[of cid db user]) simp_all
  fix b assume r: "fst (flag_claim db user cid) = Rendered b"
  then show "fst (flag_claim (snd (flag_claim db user cid)) user cid) = Rendered False"
    by (simp add: flag_claim_again)
  from flag_claim_rendered_has_flag[OF r] flags_of_le_1[OF u, of cid user]
  show "length (flags_of (snd (flag_claim db user cid)) cid user) = 1"
    by (cases "flags_of (snd (flag_claim db user cid)) cid user") auto
qed

theorem flag_claim_once_witness:
  "flags_unique (empty_store\<lparr>claims := [ex_claim]\<rparr>)
   \<and> fst (flag_claim (empty_store\<lparr>claims := [ex_claim]\<rparr>) ''ana'' 7) = Rendered True
   \<and> fst (flag_claim (snd (flag_claim (empty_store\<lparr>claims := [ex_claim]\<rparr>) ''ana'' 7)) ''ana'' 7) = Rendered False
   \<and> length (flags_of (snd (flag_claim (empty_store\<lparr>claims := [ex_claim]\<rparr>) ''ana'' 7)) 7 ''ana'') = 1"
proof -
  have h: "flags_unique (empty_store\<lparr>claims := [ex_claim]\<rparr>)"
    by (simp add: flags_unique_def empty_store_def)
  have r: "fst (flag_claim (empty_store\<lparr>claims := [ex_claim]\<rparr>) ''ana'' 7) = Rendered True"
    by (simp add: flag_claim_def get_claim_def get_flag_def empty_store_def ex_claim_def)
  from flag_claim_once[OF h, of "''ana''" 7] r h show ?thesis by blast
qed

lemma find_append_Some: "find P xs = Some y \<Longrightarrow> find P (xs @ ys) = Some y"
  by (induction xs) (auto split: if_splits)

lemma find_insort_other: "\<not> P x \<Longrightarrow> find P (insort_key f x xs) = find P xs"
  by (induction xs) auto

lemma get_or_create_claim_kept:
  assumes "get_or_create_claim new db = Inr (created, db')" "get_claim db i = Some c"
  shows "get_claim db' i = Some c"
proof (cases "get_claim db (id' new)")
  case None
  then have "id' new \<noteq> i" using assms(2) by auto
  then show ?thesis using assms None
    by (auto simp: get_or_create_claim_def get_claim_def find_insort_other split: if_splits)
next
  case (Some d)
  then show ?thesis using assms by (simp add: get_or_create_claim_def)
qed

lemma get_or_create_claim_subset:
  assumes "get_or_create_claim new db = Inr (created, db')"
  shows "set (claims db) \<subseteq> set (claims db')"
  using assms
  by (auto simp: get_or_create_claim_def set_insort_key split: option.splits if_splits)

lemma get_or_create_claim_found:
  "get_or_create_claim new db = Inr (False, db') \<Longrightarrow> db' = db \<and> get_claim db (id' new) \<noteq> None"
  by (auto simp: get_or_create_claim_def split: option.splits if_splits)

lemma reconcile_add:
  "get_claim (snd st) i = Some c \<Longrightarrow> get_claim (snd (reconcile True t r st)) i = Some c"
  by (auto simp: reconcile_def then_do_def dest: get_or_create_claim_kept get_or_create_claim_found
           split: sum.splits prod.splits)

lemma reconcile_add_subset:
  "set (claims (snd st)) \<subseteq> set (claims (snd (reconcile True t r st)))"
proof (cases "then_do r (\<lambda>new. then_do (get_or_create_claim new (snd st))
                                       (\<lambda>(created, db'). Inr (new, created, db')))")
  case (Inl e)
  then show ?thesis by (simp add: reconcile_def)
next
  case (Inr p)
  obtain new created db' where p: "p = (new, created, db')" by (cases p)
  have g: "get_or_create_claim new (snd st) = Inr (created, db')"
    using Inr p by (auto simp: then_do_def split: sum.splits prod.splits)
  show ?thesis
    using Inr p get_or_create_claim_subset[OF g] get_or_create_claim_found[of new "snd st" db']  g
    by (auto simp: reconcile_def)
qed

lemma reconcile_add_updated:
  "claims_updated (fst (reconcile True t r st)) = claims_updated (fst st)"
  by (auto simp: reconcile_def add_error_def split: sum.splits prod.splits)

lemma claims_csv_loop_add:
  "get_claim (snd st) i = Some c \<Longrightarrow>
     get_claim (snd (snd (claims_csv_loop True err n k rows st))) i = Some c"
proof (induction rows arbitrary: n k st)
  case Nil
  then show ?case by (simp split: option.splits)
next
  case (Cons row rows)
  have 1: "get_claim (snd (import_claim_csv_row True n row st)) i = Some c"
    unfolding import_claim_csv_row_reconcile using Cons.prems by (rule reconcile_add)
  show ?case using Cons.IH[OF 1] Cons.prems by simp
qed

lemma claims_csv_loop_add_subset:
  "set (claims (snd st)) \<subseteq> set (claims (snd (snd (claims_csv_loop True err n k rows st))))"
proof (induction rows arbitrary: n k st)
  case Nil
  then show ?case by (simp split: option.splits)
next
  case (Cons row rows)
  have 1: "set (claims (snd st)) \<subseteq> set (claims (snd (import_claim_csv_row True n row st)))"
    unfolding import_claim_csv_row_reconcile by (rule reconcile_add_subset)
  show ?case using Cons[of "import_claim_csv_row True n row st" "n + 1" "k + 1"] 1
    by (simp only: claims_csv_loop.simps split: if_splits) auto
qed

lemma claims_json_loop_add:
  "get_claim (snd st) i = Some c \<Longrightarrow>
     get_claim (snd (claims_json_loop True j items st)) i = Some c"
proof (induction items arbitrary: j st)
  case Nil
  then show ?case by simp
next
  case (Cons it items)
  have 1: "get_claim (snd (import_claim_json_item True j it st)) i = Some c"
    unfolding import_claim_json_item_reconcile using Cons.prems by (rule reconcile_add)
  show ?case using Cons.IH[OF 1] by simp
qed

lemma claims_json_loop_add_subset:
  "set (claims (snd st)) \<subseteq> set (claims (snd (claims_json_loop True j items st)))"
proof (induction items arbitrary: j st)
  case Nil
  then show ?case by simp
next
  case (Cons it items)
  have 1: "set (claims (snd st)) \<subseteq> set (claims (snd (import_claim_json_item True j it st)))"
    unfolding import_claim_json_item_reconcile by (rule reconcile_add_subset)
  show ?case using Cons[of "import_claim_json_item True j it st" "j + 1"] 1 by auto
qed

lemma claims_csv_loop_add_updated:
  "claims_updated (fst (snd (claims_csv_loop True err n c rows st))) = claims_updated (fst st)"
proof (induction rows arbitrary: n c st)
  case Nil
  then show ?case by (simp split: option.splits)
next
  case (Cons row rows)
  show ?case using Cons[of "n + 1" "c + 1" "import_claim_csv_row True n row st"]
    by (simp add: import_claim_csv_row_reconcile reconcile_add_updated add_error_def)
qed

lemma claims_json_loop_add_updated:
  "claims_updated (fst (claims_json_loop True i items st)) = claims_updated (fst st)"
proof (induction items arbitrary: i st)
  case Nil
  then show ?case by simp
next
  case (Cons it items)
  show ?case using Cons[of "i + 1" "import_claim_json_item True i it st"]
    by (simp add: import_claim_json_item_reconcile reconcile_add_updated)
qed

lemma detail_step_claims_updated:
  "claims_updated (fst (detail_step t r st)) = claims_updated (fst st)
   \<and> claims_created (fst (detail_step t r st)) = claims_created (fst st)"
  by (cases st; cases r)
     (auto simp: detail_step_def add_error_def split: action.splits prod.splits)

lemma doomed_detail_row_counters:
  "claims_updated (fst (doomed_detail_row t r st)) = claims_updated (fst st)
   \<and> claims_created (fst (doomed_detail_row t r st)) = claims_created (fst st)
   \<and> details_updated (fst (doomed_detail_row t r st)) = details_updated (fst st)
   \<and> details_created (fst (doomed_detail_row t r st)) = details_created (fst st)"
  by (simp add: doomed_detail_row_def add_error_def split: sum.splits)

lemma details_csv_doomed_claims_updated:
  "claims_updated (fst (snd (details_csv_doomed err n rows st))) = claims_updated (fst st)
   \<and> claims_created (fst (snd (details_csv_doomed err n rows st))) = claims_created (fst st)"
proof (induction rows arbitrary: n st)
  case Nil
  then show ?case by (simp split: option.splits)
next
  case (Cons row rows)
  show ?case using Cons[of "n + 1" "doomed_detail_row (''Row '' @ str_nat n) (Inr row) st"]
    by (simp add: doomed_detail_row_counters)
qed

lemma details_json_doomed_claims_updated:
  "claims_updated (fst (snd (details_json_doomed i items st))) = claims_updated (fst st)
   \<and> claims_created (fst (snd (details_json_doomed i items st))) = claims_created (fst st)"
proof (induction items arbitrary: i st)
  case Nil
  then show ?case by simp
next
  case (Cons it items)
  show ?case
    using Cons[of "i + 1" "doomed_detail_row (''Item '' @ str_nat (i + 1))
          (case it of INonObj ty \<Rightarrow> Inl (subscript_error ty) | IObj item \<Rightarrow> Inr item) st"]
    by (simp add: doomed_detail_row_counters)
qed

lemma details_csv_loop_claims_updated:
  "claims_updated (fst (snd (details_csv_loop a err n rows st))) = claims_updated (fst st)
   \<and> claims_created (fst (snd (details_csv_loop a err n rows st))) = claims_created (fst st)"
proof (induction rows arbitrary: n st)
  case Nil
  then show ?case by (simp split: option.splits)
next
  case (Cons row rows)
  show ?case using Cons[of "n + 1" "import_detail_csv_row a n row st"]
    by (simp add: import_detail_csv_row_def detail_step_claims_updated
          details_csv_doomed_claims_updated)
qed

lemma details_json_loop_claims_updated:
  "claims_updated (fst (snd (details_json_loop a i items st))) = claims_updated (fst st)
   \<and> claims_created (fst (snd (details_json_loop a i items st))) = claims_created (fst st)"
proof (induction items arbitrary: i st)
  case Nil
  then show ?case by simp
next
  case (Cons it items)
  show ?case using Cons[of "i + 1" "import_detail_json_item a i it st"]
    by (simp add: import_detail_json_item_def detail_step_claims_updated
          details_json_doomed_claims_updated)
qed

lemma claims_csv_loop_not_doomed:
  "fst (claims_csv_loop a err n k rows st) \<noteq> NeedsRollback"
proof (induction rows arbitrary: n k st)
  case Nil
  then show ?case by (simp split: option.splits)
next
  case (Cons row rows)
  show ?case using Cons[of "n + 1" "k + 1" "import_claim_csv_row a n row st"] by simp
qed

lemma claims_phase_not_doomed: "fst (claims_phase ft cf a st) \<noteq> NeedsRollback"
  by (auto simp: claims_phase_def import_claims_csv_def import_claims_json_def Let_def
        claims_csv_loop_not_doomed split: option.splits sum.splits)

lemma import_block_phases:
  "import_block cf df ft op' st =
     (case claims_phase ft cf (op' = ''add'') (start_phase op' st) of
        (Raised e, st2) \<Rightarrow> (Raised e, st2)
      | (NeedsRollback, st2) \<Rightarrow> (NeedsRollback, st2)
      | (Done, st2) \<Rightarrow> details_phase ft df (op' = ''add'') st2)"
  by (simp add: import_block_def claims_phase_def details_phase_def start_phase_def Let_def
        split: prod.splits outcome.splits)

lemma import_block_cases:
  obtains (claims_raised) e st2 where
      "claims_phase ft cf (op' = ''add'') (start_phase op' st) = (Raised e, st2)"
      "import_block cf df ft op' st = (Raised e, st2)"
  | (claims_done) st2 where
      "claims_phase ft cf (op' = ''add'') (start_phase op' st) = (Done, st2)"
      "import_block cf df ft op' st = details_phase ft df (op' = ''add'') st2"
proof -
  obtain out st2 where c: "claims_phase ft cf (op' = ''add'') (start_phase op' st) = (out, st2)"
    by (cases "claims_phase ft cf (op' = ''add'') (start_phase op' st)")
  show ?thesis
  proof (cases out)
    case Done
    with c show ?thesis by (intro claims_done[of st2]) (simp_all add: import_block_phases)
  next
    case (Raised e)
    with c show ?thesis by (intro claims_raised[of e st2]) (simp_all add: import_block_phases)
  next
    case NeedsRollback
    with c claims_phase_not_doomed[of ft cf "op' = ''add''" "start_phase op' st"]
    show ?thesis by simp
  qed
qed

lemma import_data_cases:
  obtains (invalid) e where
      "import_data res db cf df ft op' = (Raised e, add_error (''Validation failed: '' @ str_exc e) res, db)"
      "validate_file cf = Inl e \<or> (file_given df \<and> validate_file df = Inl e)"
  | (returned) res' db' where
      "validate_file cf = Inr True"
      "import_block cf df ft op' (res, db) = (Done, res', db')"
      "import_data res db cf df ft op' = (Done, res', db')"
  | (failed) e res' db' where
      "validate_file cf = Inr True"
      "import_block cf df ft op' (res, db) = (Raised e, res', db')"
      "import_data res db cf df ft op' =
         (Raised e, add_error ((if exc_kind e = ValidationError then ''Validation failed: ''
                          else ''Import failed: '') @ str_exc e) res', db)"
  | (undone) res' db' where
      "validate_file cf = Inr True"
      "import_block cf df ft op' (res, db) = (NeedsRollback, res', db')"
      "import_data res db cf df ft op' = (Done, res', db)"
proof (cases "validate_file cf")
  case (Inl e)
  then have k: "exc_kind e = ValidationError"
    by (auto simp: validate_file_def validation_error_def split: option.splits if_splits)
  with Inl show ?thesis
    by (intro invalid[of e]) (simp_all add: import_data_def)
next
  case (Inr ok)
  then have ok: "validate_file cf = Inr True"
    by (auto simp: validate_file_def split: option.splits if_splits)
  show ?thesis
  proof (cases "if file_given df then validate_file df else Inr True")
    case (Inl e)
    then have k: "exc_kind e = ValidationError"
      by (auto simp: validate_file_def validation_error_def split: option.splits if_splits)
    from Inl have g: "file_given df \<and> validate_file df = Inl e" by (auto split: if_splits)
    with Inl ok k show ?thesis
      by (intro invalid[of e]) (simp_all add: import_data_def)
  next
    case r: (Inr ok')
    obtain out res' db' where b: "import_block cf df ft op' (res, db) = (out, res', db')"
      by (cases "import_block cf df ft op' (res, db)")
    show ?thesis
    proof (cases out)
      case Done
      with b ok r show ?thesis
        by (intro returned[of res' db']) (simp_all add: import_data_def atomic_def)
    next
      case (Raised e)
      with b ok r show ?thesis
        by (intro failed[of e res' db']) (simp_all add: import_data_def atomic_def)
    next
      case NeedsRollback
      with b ok r show ?thesis
        by (intro undone[of res' db']) (simp_all add: import_data_def atomic_def)
    qed
  qed
qed

lemma claims_phase_frame:
  "details (snd (snd (claims_phase ft cf a st))) = details (snd st)
   \<and> flags (snd (snd (claims_phase ft cf a st))) = flags (snd st)
   \<and> claim_notes (snd (snd (claims_phase ft cf a st))) = claim_notes (snd st)"
  by (auto simp: claims_phase_def import_claims_csv_def import_claims_json_def Let_def
        claims_csv_loop_frame claims_json_loop_frame split: option.splits sum.splits)

lemma details_phase_frame:
  "claims (snd (snd (details_phase ft df a st))) = claims (snd st)
   \<and> flags (snd (snd (details_phase ft df a st))) = flags (snd st)
   \<and> claim_notes (snd (snd (details_phase ft df a st))) = claim_notes (snd st)"
  by (auto simp: details_phase_def import_details_csv_def import_details_json_def
        details_csv_loop_frame details_json_loop_frame split: option.splits sum.splits)

lemma details_phase_counters:
  "claims_updated (fst (snd (details_phase ft df a st))) = claims_updated (fst st)
   \<and> claims_created (fst (snd (details_phase ft df a st))) = claims_created (fst st)"
  by (auto simp: details_phase_def import_details_csv_def import_details_json_def
        details_csv_loop_claims_updated details_json_loop_claims_updated
        split: option.splits sum.splits)

lemma claims_phase_add:
  "get_claim (snd st) i = Some c \<Longrightarrow> get_claim (snd (snd (claims_phase ft cf True st))) i = Some c"
  by (auto simp: claims_phase_def import_claims_csv_def import_claims_json_def Let_def
        claims_csv_loop_add claims_json_loop_add split: option.splits sum.splits)

lemma claims_phase_add_subset:
  "set (claims (snd st)) \<subseteq> set (claims (snd (snd (claims_phase ft cf True st))))"
proof (cases "ft = ''csv''")
  case True
  then show ?thesis
    using claims_csv_loop_add_subset
    by (auto simp: claims_phase_def import_claims_csv_def split: option.splits)
next
  case False
  have j: "\<And>items st. set (claims (snd st)) \<subseteq> set (claims (snd (claims_json_loop True 0 items st)))"
    by (rule claims_json_loop_add_subset)
  obtain res db where st: "st = (res, db)" by (cases st)
  from False show ?thesis
    using j[THEN subsetD] unfolding st
    by (auto simp: claims_phase_def import_claims_json_def Let_def add_error_def
          split: option.splits sum.splits)
qed

lemma claims_phase_add_updated:
  "claims_updated (fst (snd (claims_phase ft cf True st))) = claims_updated (fst st)"
  by (auto simp: claims_phase_def import_claims_csv_def import_claims_json_def Let_def
        claims_csv_loop_add_updated claims_json_loop_add_updated add_error_def
        split: option.splits sum.splits)

lemmas char_evals = strip_def py_isspace_def int_strip_def int_space_def is_digit_def
  digit_val_def the_digit_def nat_of_digits_def lower_def

lemma ex_amount_billed:
  "safe_decimal_conversion (PStr ''$1,200.00'') ''billed_amount'' = Inr (Finite False 120000 (- 2))"
  by (simp add: safe_decimal_conversion_def decimal_checked_def cleaned_def Decimal_def
        numeric_value_def char_evals Let_def then_do_def int_zero_def max_amount_def
        at_exponent_def signed_coeff_def)

lemma ex_amount_paid:
  "safe_decimal_conversion (PStr ''900'') ''paid_amount'' = Inr (Finite False 900 0)"
  by (simp add: safe_decimal_conversion_def decimal_checked_def cleaned_def Decimal_def
        numeric_value_def char_evals Let_def then_do_def int_zero_def max_amount_def
        at_exponent_def signed_coeff_def)

lemma ex_date: "parse_date (PStr ''03/15/2024'') ctx = Inr (Date 2024 3 15)"
  by (simp add: strptime_def iso_format_def other_formats_def re_Y_def re_m_def re_d_def
        two_of_def one_of_def char_evals valid_date_def days_in_month_def leap_year_def)

lemma ex_cents: "to_cents (Finite False 120000 (- 2)) = 120000" "to_cents (Finite False 900 0) = 90000"
  by (simp_all add: to_cents_def signed_coeff_def)

lemma ex_row_claim:
  "claim_of_csv_row ex_row n = Inr (ex_claim\<lparr>patient_name := ''Jane Roe''\<rparr>)"
  by (simp add: claim_of_csv_row_def ex_row_def getitem_def get_or_empty_def then_do_def
        int_literal_def digits_us_def char_evals ex_amount_billed ex_amount_paid ex_date ex_cents
        valid_statuses_def ex_claim_def del: parse_date.simps)

lemma ex_item_claim:
  "claim_of_json_item (IObj ex_row) i = Inr (ex_claim\<lparr>patient_name := ''Jane Roe''\<rparr>)"
  by (simp add: claim_of_json_item_def ex_row_def getitem_def get_or_empty_def then_do_def
        int_literal_def digits_us_def char_evals ex_amount_billed ex_amount_paid ex_date ex_cents
        valid_statuses_def ex_claim_def del: parse_date.simps)

lemma import_block_add:
  "(get_claim (snd st) i = Some c \<longrightarrow>
      get_claim (snd (snd (import_block cf df ft ''add'' st))) i = Some c)
   \<and> set (claims (snd st)) \<subseteq> set (claims (snd (snd (import_block cf df ft ''add'' st))))
   \<and> claims_updated (fst (snd (import_block cf df ft ''add'' st))) = claims_updated (fst st)"
proof (cases rule: import_block_cases[of ft cf "''add''" st df])
  case (claims_raised e st2)
  with claims_phase_add[of "start_phase ''add'' st" i c ft cf]
       claims_phase_add_subset[of "start_phase ''add'' st" ft cf]
       claims_phase_add_updated[of ft cf "start_phase ''add'' st"]
  show ?thesis by (simp add: start_phase_def)
next
  case (claims_done st2)
  with claims_phase_add[of "start_phase ''add'' st" i c ft cf]
       claims_phase_add_subset[of "start_phase ''add'' st" ft cf]
       claims_phase_add_updated[of ft cf "start_phase ''add'' st"]
       details_phase_frame[of ft df True st2] details_phase_counters[of ft df True st2]
  show ?thesis by (simp add: start_phase_def get_claim_def)
qed

lemma import_data_add:
  "(get_claim db i = Some c \<longrightarrow>
      get_claim (snd (snd (import_data res db cf df ft ''add''))) i = Some c)
   \<and> set (claims db) \<subseteq> set (claims (snd (snd (import_data res db cf df ft ''add''))))
   \<and> claims_updated (fst (snd (import_data res db cf df ft ''add''))) = claims_updated res"
proof (cases rule: import_data_cases[of res db cf df ft "''add''"])
  case (invalid e)
  then show ?thesis by (simp add: add_error_def)
next
  case (returned res' db')
  with import_block_add[of "(res, db)" i c cf df ft] show ?thesis by simp
next
  case (failed e res' db')
  with import_block_add[of "(res, db)" i c cf df ft] show ?thesis by (simp add: add_error_def)
next
  case (undone res' db')
  with import_block_add[of "(res, db)" i c cf df ft] show ?thesis by simp
qed

lemma reconcile_skip:
  "r = Inr c \<Longrightarrow> get_claim (snd st) (id' c) \<noteq> None \<Longrightarrow> reconcile True t r st = st"
  by (auto simp: reconcile_def then_do_def get_or_create_claim_def split: option.splits)

lemma reconcile_Inl:
  "reconcile a t (Inl e) (res, db) = (add_error (t @ '': '' @ str_exc e) res, db)"
  by (simp add: reconcile_def then_do_def)

text \<open>
  C5. In add mode a stored claim is never changed by \<^verbatim>\<open>import_data\<close>: every stored
  claim is found again under its id with the same fields, the claims table after the call
  holds every claim it held before, and nothing is counted as updated. A record
  is validated before its id is looked up: one that passes validation and names a stored
  id is skipped, so that neither the store nor the counters nor the error list change; one
  that fails validation is recorded as an error under its tag, whether its id is stored or
  not (for both readers).
\<close>

theorem add_mode_keeps_existing_claims:
  "(\<forall>i c. get_claim db i = Some c \<longrightarrow>
          get_claim (snd (snd (import_data res db cf df ft ''add''))) i = Some c)
   \<and> set (claims db) \<subseteq> set (claims (snd (snd (import_data res db cf df ft ''add''))))
   \<and> claims_updated (fst (snd (import_data res db cf df ft ''add''))) = claims_updated res
   \<and> (\<forall>row n c. claim_of_csv_row row n = Inr c \<and> get_claim db (id' c) \<noteq> None \<longrightarrow>
          import_claim_csv_row True n row (res, db) = (res, db))
   \<and> (\<forall>it i c. claim_of_json_item it i = Inr c \<and> get_claim db (id' c) \<noteq> None \<longrightarrow>
          import_claim_json_item True i it (res, db) = (res, db))
   \<and> (\<forall>row n e. claim_of_csv_row row n = Inl e \<longrightarrow>
          import_claim_csv_row True n row (res, db) =
            (add_error (''Row '' @ str_nat n @ '': '' @ str_exc e) res, db))
   \<and> (\<forall>it i e. claim_of_json_item it i = Inl e \<longrightarrow>
          import_claim_json_item True i it (res, db) =
            (add_error (''Item '' @ str_nat (i + 1) @ '': '' @ str_exc e) res, db))"
proof (intro conjI allI impI)
  show "set (claims db) \<subseteq> set (claims (snd (snd (import_data res db cf df ft ''add''))))"
    using import_data_add by blast
  show "claims_updated (fst (snd (import_data res db cf df ft ''add''))) = claims_updated res"
    using import_data_add by blast
next
  fix i c assume "get_claim db i = Some c"
  then show "get_claim (snd (snd (import_data res db cf df ft ''add''))) i = Some c"
    using import_data_add[of db i c res cf df ft] by blast
next
  fix row n c
  assume "claim_of_csv_row row n = Inr c \<and> get_claim db (id' c) \<noteq> None"
  then show "import_claim_csv_row True n row (res, db) = (res, db)"
    by (simp add: import_claim_csv_row_reconcile reconcile_skip)
next
  fix it i c
  assume "claim_of_json_item it i = Inr c \<and> get_claim db (id' c) \<noteq> None"
  then show "import_claim_json_item True i it (res, db) = (res, db)"
    by (simp add: import_claim_json_item_reconcile reconcile_skip)
next
  fix row n e assume "claim_of_csv_row row n = Inl e"
  then show "import_claim_csv_row True n row (res, db) =
            (add_error (''Row '' @ str_nat n @ '': '' @ str_exc e) res, db)"
    by (simp add: import_claim_csv_row_reconcile reconcile_Inl)
next
  fix it i e assume "claim_of_json_item it i = Inl e"
  then show "import_claim_json_item True i it (res, db) =
            (add_error (''Item '' @ str_nat (i + 1) @ '': '' @ str_exc e) res, db)"
    by (simp add: import_claim_json_item_reconcile reconcile_Inl)
qed


lemma ex_pending_row_claim:
  "claim_of_csv_row ex_pending_row n =
     Inl (Exc ValueError (''Invalid status: Pending. Must be one of: '' @ str_valid_statuses))"
  by (simp add: claim_of_csv_row_def ex_pending_row_def ex_row_def getitem_def get_or_empty_def
        then_do_def int_literal_def digits_us_def char_evals ex_amount_billed ex_amount_paid ex_date
        valid_statuses_def del: parse_date.simps)

theorem add_mode_keeps_existing_claims_witness:
  "get_claim ex_store 7 = Some ex_claim
   \<and> claim_of_csv_row ex_row 2 = Inr (ex_claim\<lparr>patient_name := ''Jane Roe''\<rparr>)
   \<and> get_claim (snd (snd (import_data init_results ex_store
        (Some (rows_upload ''claims.csv'' [ex_row])) None ''csv'' ''add''))) 7 = Some ex_claim
   \<and> import_claim_csv_row True 2 ex_row (init_results, ex_store) = (init_results, ex_store)
   \<and> import_claim_json_item True 0 (IObj ex_row) (init_results, ex_store) = (init_results, ex_store)
   \<and> import_claim_csv_row True 2 ex_pending_row (init_results, ex_store) =
      (add_error (''Row '' @ str_nat 2 @ '': '' @ str_exc (Exc ValueError
         (''Invalid status: Pending. Must be one of: '' @ str_valid_statuses))) init_results, ex_store)"
proof -
  have g: "get_claim ex_store 7 = Some ex_claim"
    by (simp add: get_claim_def ex_store_def empty_store_def ex_claim_def)
  have g': "get_claim ex_store (id' (ex_claim\<lparr>patient_name := ''Jane Roe''\<rparr>)) \<noteq> None"
    by (simp add: get_claim_def ex_store_def empty_store_def ex_claim_def)
  note T = add_mode_keeps_existing_claims[of ex_store init_results
         "Some (rows_upload ''claims.csv'' [ex_row])" None "''csv''"]
  note T2 = T[THEN conjunct2]
  note T3 = T2[THEN conjunct2]
  note T4 = T3[THEN conjunct2]
  have a: "get_claim (snd (snd (import_data init_results ex_store
        (Some (rows_upload ''claims.csv'' [ex_row])) None ''csv'' ''add''))) 7 = Some ex_claim"
    by (rule T[THEN conjunct1, THEN spec, THEN spec, THEN mp, OF g])
  have b: "import_claim_csv_row True 2 ex_row (init_results, ex_store) = (init_results, ex_store)"
    by (rule T4[THEN conjunct1, THEN spec, THEN spec, THEN spec, THEN mp, OF conjI, OF ex_row_claim g'])
  have c: "import_claim_json_item True 0 (IObj ex_row) (init_results, ex_store) = (init_results, ex_store)"
    by (rule T4[THEN conjunct2, THEN conjunct1, THEN spec, THEN spec, THEN spec, THEN mp, OF conjI,
               OF ex_item_claim g'])
  have d: "import_claim_csv_row True 2 ex_pending_row (init_results, ex_store) =
      (add_error (''Row '' @ str_nat 2 @ '': '' @ str_exc (Exc ValueError
         (''Invalid status: Pending. Must be one of: '' @ str_valid_statuses))) init_results, ex_store)"
    by (rule T4[THEN conjunct2, THEN conjunct2, THEN conjunct1, THEN spec, THEN spec, THEN spec,
               THEN mp, OF ex_pending_row_claim])
  show ?thesis using g ex_row_claim[of 2] a b c d by (intro conjI)
qed

lemma str_nat_digit: "n < 10 \<Longrightarrow> str_nat n = [digit_char n]"
  by (simp add: str_nat.simps)

lemma overwrite_is_delete_then_update:
  "import_block cf df ft ''overwrite'' (res, db) =
     import_block cf df ft ''update'' (res, delete_all_claims (delete_all_details db))"
  by (simp add: import_block_phases start_phase_def split: prod.splits outcome.splits)

lemma claims_phase_no_rows:
  assumes "cf = Some u"
    and "(ft = ''csv'' \<and> csv_rows u = []) \<or> (ft \<noteq> ''csv'' \<and> json_doc u = Inr (JArray []))"
  shows "snd (claims_phase ft cf a st) = st"
  using assms
  by (auto simp: claims_phase_def import_claims_csv_def import_claims_json_def MAX_ROWS_def
        split: option.splits)

lemma detail_row_body_no_claims:
  "claims db = [] \<Longrightarrow> \<not> marks_rollback (detail_row_body a row db)"
  by (auto simp: marks_rollback_def detail_row_body_def then_do_def get_claim_def
        split: sum.splits)

lemma details_csv_loop_no_claims:
  "claims (snd st) = [] \<Longrightarrow> fst (details_csv_loop a err n rows st) \<noteq> NeedsRollback"
proof (induction rows arbitrary: n st)
  case Nil
  then show ?case by (simp split: option.splits)
next
  case (Cons row rows)
  have "claims (snd (import_detail_csv_row a n row st)) = []"
    using Cons.prems by (simp add: import_detail_csv_row_frame)
  from Cons.IH[OF this] Cons.prems show ?case
    by (simp add: detail_row_body_no_claims)
qed

lemma details_json_loop_no_claims:
  "claims (snd st) = [] \<Longrightarrow> fst (details_json_loop a i items st) \<noteq> NeedsRollback"
proof (induction items arbitrary: i st)
  case Nil
  then show ?case by simp
next
  case (Cons it items)
  have "claims (snd (import_detail_json_item a i it st)) = []"
    using Cons.prems by (simp add: import_detail_json_item_frame)
  from Cons.IH[OF this] Cons.prems show ?case
    by (cases it) (simp_all add: detail_row_body_no_claims)
qed

lemma details_phase_no_claims:
  "claims (snd st) = [] \<Longrightarrow> fst (details_phase ft df a st) \<noteq> NeedsRollback"
  by (auto simp: details_phase_def import_details_csv_def import_details_json_def
        details_csv_loop_no_claims details_json_loop_no_claims split: option.splits sum.splits)

lemma overwrite_no_rows:
  assumes cf: "cf = Some u"
    and rows: "(ft = ''csv'' \<and> csv_rows u = []) \<or> (ft \<noteq> ''csv'' \<and> json_doc u = Inr (JArray []))"
    and d: "fst (import_data res db cf df ft ''overwrite'') = Done"
  shows "claims (snd (snd (import_data res db cf df ft ''overwrite''))) = []"
proof (cases rule: import_data_cases[of res db cf df ft "''overwrite''"])
  case (invalid e)
  with d show ?thesis by simp
next
  case (failed e res' db')
  with d show ?thesis by simp
next
  case (returned res' db')
  show ?thesis
  proof (cases rule: import_block_cases[of ft cf "''overwrite''" "(res, db)" df])
    case (claims_raised e st2)
    with returned show ?thesis by simp
  next
    case (claims_done st2)
    have "st2 = start_phase ''overwrite'' (res, db)"
      using claims_phase_no_rows[OF cf rows, of False "start_phase ''overwrite'' (res, db)"]
            claims_done(1) by simp
    then have "claims (snd st2) = []"
      by (simp add: start_phase_def delete_all_claims_def)
    with claims_done(2) returned details_phase_frame[of ft df False st2]
    show ?thesis by simp
  qed
next
  case (undone res' db')
  show ?thesis
  proof (cases rule: import_block_cases[of ft cf "''overwrite''" "(res, db)" df])
    case (claims_raised e st2)
    with undone show ?thesis by simp
  next
    case (claims_done st2)
    have "st2 = start_phase ''overwrite'' (res, db)"
      using claims_phase_no_rows[OF cf rows, of False "start_phase ''overwrite'' (res, db)"]
            claims_done(1) by simp
    then have "claims (snd st2) = []"
      by (simp add: start_phase_def delete_all_claims_def)
    then have n: "fst (details_phase ft df False st2) \<noteq> NeedsRollback"
      by (rule details_phase_no_claims)
    have "fst (import_block cf df ft ''overwrite'' (res, db)) = NeedsRollback"
      by (simp only: undone(2) fst_conv)
    then have "fst (details_phase ft df False st2) = NeedsRollback"
      by (simp only: claims_done(2) refl simp_thms if_False list.inject char.inject)
    with n show ?thesis by simp
  qed
qed

text \<open>
  C4. With \<^verbatim>\<open>operation = 'overwrite'\<close> the block of \<^verbatim>\<open>import_data\<close> is: delete every
  \<^verbatim>\<open>ClaimDetail\<close>, then delete every \<^verbatim>\<open>Claim\<close>, then process the records as a
  non-additive import does on the store so emptied. The first deletion leaves no detail
  and keeps the claims (and the flags and notes) for the second, which leaves no claim, no
  detail, no flag and no note whatever store it is given. In particular an overwrite
  import that returns and whose claims file holds no record leaves no claim in the store,
  however many it held.
\<close>

theorem overwrite_deletes_first:
  "import_block cf df ft ''overwrite'' (res, db) =
     import_block cf df ft ''update'' (res, delete_all_claims (delete_all_details db))
   \<and> details (delete_all_details db) = []
   \<and> claims (delete_all_details db) = claims db
   \<and> flags (delete_all_details db) = flags db
   \<and> claim_notes (delete_all_details db) = claim_notes db
   \<and> delete_all_claims db' = empty_store
   \<and> claims (delete_all_claims (delete_all_details db)) = []
   \<and> details (delete_all_claims (delete_all_details db)) = []
   \<and> (\<forall>u. cf = Some u
          \<and> ((ft = ''csv'' \<and> csv_rows u = []) \<or> (ft \<noteq> ''csv'' \<and> json_doc u = Inr (JArray [])))
          \<and> fst (import_data res db cf df ft ''overwrite'') = Done
        \<longrightarrow> claims (snd (snd (import_data res db cf df ft ''overwrite''))) = [])"
proof (intro conjI allI impI)
  show "import_block cf df ft ''overwrite'' (res, db) =
     import_block cf df ft ''update'' (res, delete_all_claims (delete_all_details db))"
    by (rule overwrite_is_delete_then_update)
  show "details (delete_all_details db) = []" "claims (delete_all_details db) = claims db"
    "flags (delete_all_details db) = flags db"
    "claim_notes (delete_all_details db) = claim_notes db"
    by (simp_all add: delete_all_details_def)
  show "delete_all_claims db' = empty_store"
    by (simp add: delete_all_claims_def empty_store_def)
  show "claims (delete_all_claims (delete_all_details db)) = []"
    by (simp add: delete_all_claims_def)
  show "details (delete_all_claims (delete_all_details db)) = []"
    by (simp add: delete_all_claims_def)
next
  fix u
  assume "cf = Some u
          \<and> ((ft = ''csv'' \<and> csv_rows u = []) \<or> (ft \<noteq> ''csv'' \<and> json_doc u = Inr (JArray [])))
          \<and> fst (import_data res db cf df ft ''overwrite'') = Done"
  then show "claims (snd (snd (import_data res db cf df ft ''overwrite''))) = []"
    using overwrite_no_rows[of cf u ft res db df] by blast
qed

lemma ex_overwrite_empty_csv:
  "import_data init_results ex_store (Some (rows_upload ''claims.csv'' [])) None ''csv'' ''overwrite''
     = (Done, init_results, empty_store)"
  by (simp add: import_data_def validate_file_def rows_upload_def MAX_FILE_SIZE_def file_given_def
        atomic_def import_block_def import_claims_csv_def delete_all_claims_def
        delete_all_details_def ex_store_def empty_store_def Let_def)

theorem overwrite_deletes_first_witness:
  "claims ex_store = [ex_claim]
   \<and> csv_rows (rows_upload ''claims.csv'' []) = []
   \<and> fst (import_data init_results ex_store (Some (rows_upload ''claims.csv'' [])) None
          ''csv'' ''overwrite'') = Done
   \<and> claims (snd (snd (import_data init_results ex_store (Some (rows_upload ''claims.csv'' []))
          None ''csv'' ''overwrite''))) = []"
proof -
  have c: "claims ex_store = [ex_claim]" by (simp add: ex_store_def empty_store_def)
  have r: "csv_rows (rows_upload ''claims.csv'' []) = []" by (simp add: rows_upload_def)
  have d: "fst (import_data init_results ex_store (Some (rows_upload ''claims.csv'' [])) None
          ''csv'' ''overwrite'') = Done"
    by (simp add: ex_overwrite_empty_csv)
  note T = overwrite_deletes_first[of "Some (rows_upload ''claims.csv'' [])" None "''csv''"
              init_results ex_store ex_store]
  have "claims (snd (snd (import_data init_results ex_store (Some (rows_upload ''claims.csv'' []))
          None ''csv'' ''overwrite''))) = []"
    by (rule T[THEN conjunct2, THEN conjunct2, THEN conjunct2, THEN conjunct2, THEN conjunct2,
               THEN conjunct2, THEN conjunct2, THEN conjunct2, THEN spec, THEN mp])
       (use r d in simp)
  with c r d show ?thesis by (intro conjI)
qed

lemma detail_row_body_not_found:
  "getitem row ''claim_id'' = Inr v \<Longrightarrow> py_int v = Inr cid \<Longrightarrow> get_claim db cid = None \<Longrightarrow>
     detail_row_body a row db = Inr (NotFound cid, db)"
  by (simp add: detail_row_body_def then_do_def)

lemma detail_step_not_found:
  "detail_step tag (Inr (NotFound cid, db)) (res, db) =
     (add_error (tag @ '': Claim '' @ str_int cid @ '' not found'') res, db)"
  by (simp add: detail_step_def)




lemma ex_detail_row_id:
  "getitem ex_detail_row ''claim_id'' = Inr (PStr ''5'')" "py_int (PStr ''5'') = Inr 5"
  "get_claim ex_store 5 = None"
  by (simp_all add: ex_detail_row_def getitem_def int_literal_def digits_us_def char_evals
        get_claim_def ex_store_def empty_store_def ex_claim_def)



lemma claims_csv_loop_done: "fst (claims_csv_loop a None n c rows st) = Done"
  by (induction rows arbitrary: n c st) simp_all

























lemma details_csv_loop_not_found:
  assumes "getitem row ''claim_id'' = Inr v" "py_int v = Inr cid" "get_claim db cid = None"
  shows "details_csv_loop a None n (replicate k row) (res, db) =
     (Done, res\<lparr>errors := errors res
        @ map (\<lambda>m. ''Row '' @ str_nat m @ '': Claim '' @ str_int cid @ '' not found'') [n..<n + k]\<rparr>, db)"
proof (induction k arbitrary: n res)
  case 0
  then show ?case by simp
next
  case (Suc k)
  have step: "import_detail_csv_row a n row (res, db) =
        (add_error (''Row '' @ str_nat n @ '': Claim '' @ str_int cid @ '' not found'') res, db)"
    using assms
    by (simp add: import_detail_csv_row_def detail_row_body_not_found detail_step_not_found)
  have m: "\<not> marks_rollback (detail_row_body a row (snd (res, db)))"
    using assms by (simp add: detail_row_body_not_found marks_rollback_def)
  have u: "[n..<n + Suc k] = n # [Suc n..<Suc n + k]"
    by (simp add: upt_conv_Cons)
  show ?case
    unfolding replicate_Suc details_csv_loop.simps step if_not_P[OF m]
    by (simp only: Suc.IH[of "n + 1"] u) (simp add: add_error_def)
qed

lemma details_json_loop_not_found:
  assumes "getitem row ''claim_id'' = Inr v" "py_int v = Inr cid" "get_claim db cid = None"
  shows "details_json_loop a i (replicate k (IObj row)) (res, db) =
     (Done, res\<lparr>errors := errors res
        @ map (\<lambda>m. ''Item '' @ str_nat (m + 1) @ '': Claim '' @ str_int cid @ '' not found'') [i..<i + k]\<rparr>, db)"
proof (induction k arbitrary: i res)
  case 0
  then show ?case by simp
next
  case (Suc k)
  have step: "import_detail_json_item a i (IObj row) (res, db) =
        (add_error (''Item '' @ str_nat (i + 1) @ '': Claim '' @ str_int cid @ '' not found'') res, db)"
    using assms
    by (simp add: import_detail_json_item_def detail_row_body_not_found detail_step_not_found)
  have m: "\<not> (case IObj row of INonObj ty \<Rightarrow> False
                   | IObj item \<Rightarrow> marks_rollback (detail_row_body a item (snd (res, db))))"
    using assms by (simp add: detail_row_body_not_found marks_rollback_def)
  have u: "[i..<i + Suc k] = i # [Suc i..<Suc i + k]"
    by (simp add: upt_conv_Cons)
  show ?case
    unfolding replicate_Suc details_json_loop.simps step if_not_P[OF m]
    by (simp only: Suc.IH[of "i + 1"] u) (simp add: add_error_def)
qed

text \<open>
  C2, for the details files. \<^verbatim>\<open>_import_details_csv\<close> has no row ceiling: on a details
  file of 50,001 rows, each naming a claim the store does not hold, it handles every row
  (rows 2 to 50,002 each get their own error) and adds no summary error.
\<close>

theorem details_csv_ignores_row_ceiling:
  "import_details_csv (Some (rows_upload ''details.csv'' (replicate 50001 ex_detail_row))) True
     (init_results, ex_store)
   = (Done, init_results\<lparr>errors := errors init_results
        @ map (\<lambda>m. ''Row '' @ str_nat m @ '': Claim '' @ str_int 5 @ '' not found'') [2..<2 + 50001]\<rparr>,
      ex_store)"
  by (simp only: import_details_csv_def rows_upload_def upload.simps option.case
        details_csv_loop_not_found[OF ex_detail_row_id])













lemma import_data_rows_csv:
  assumes "n \<noteq> []"
  shows "import_data res db (Some (rows_upload n rows)) None ''csv'' op' =
     (Done, snd (claims_csv_loop (op' = ''add'') None 2 0 rows (start_phase op' (res, db))))"
proof -
  let ?l = "claims_csv_loop (op' = ''add'') None 2 0 rows (start_phase op' (res, db))"
  have d: "fst ?l = Done" by (rule claims_csv_loop_done)
  obtain st where l: "?l = (Done, st)" using d by (cases ?l) auto
  have b: "import_block (Some (rows_upload n rows)) None ''csv'' op' (res, db) = (Done, st)"
    using l
    by (simp add: import_block_phases claims_phase_def details_phase_def import_claims_csv_def
          rows_upload_def file_given_def)
  show ?thesis
    using assms b l
    by (cases st)
       (simp add: import_data_def validate_file_def rows_upload_def MAX_FILE_SIZE_def
          file_given_def atomic_def)
qed




lemma strip_subset: "set (strip s) \<subseteq> set s"
proof -
  have "set (dropWhile py_isspace (rev (dropWhile py_isspace s))) \<subseteq> set (rev (dropWhile py_isspace s))"
    by (auto dest: set_dropWhileD)
  also have "\<dots> \<subseteq> set s" by (auto dest: set_dropWhileD)
  finally show ?thesis by (simp add: strip_def)
qed

lemma strip_last: "strip s \<noteq> [] \<Longrightarrow> \<not> py_isspace (last (strip s))"
  by (simp add: strip_def last_rev hd_dropWhile)

lemma strip_hd:
  assumes "strip s \<noteq> []"
  shows "\<not> py_isspace (hd (strip s))"
proof -
  let ?t = "dropWhile py_isspace s"
  have "rev ?t = takeWhile py_isspace (rev ?t) @ dropWhile py_isspace (rev ?t)" by simp
  then have "?t = rev (dropWhile py_isspace (rev ?t)) @ rev (takeWhile py_isspace (rev ?t))"
    by (metis rev_append rev_rev_ident)
  then have t: "?t = strip s @ rev (takeWhile py_isspace (rev ?t))" by (simp add: strip_def)
  with assms have "hd ?t = hd (strip s)" by (metis hd_append2)
  moreover have "?t \<noteq> []" using t assms by (metis append_is_Nil_conv)
  ultimately show ?thesis using hd_dropWhile[of py_isspace s] by simp
qed

lemma cleaned_chars:
  "CHR ''$'' \<notin> set (cleaned v) \<and> CHR '','' \<notin> set (cleaned v)"
  using strip_subset[of "filter (\<lambda>c. c \<noteq> CHR '','') (filter (\<lambda>c. c \<noteq> CHR ''$'') (py_str v))"]
  by (auto simp: cleaned_def)

lemma ten_powi_pos: "(0::real) < 10 powi m"
  by (simp add: zero_less_power_int)

lemma at_exponent_real:
  assumes "m \<le> e"
  shows "real_of_int (at_exponent sg c e m) * 10 powi m = dec_real sg c e"
proof -
  have "(10::real) ^ nat (e - m) = 10 powi (e - m)"
    using assms by (simp add: power_int_def)
  moreover have "(10::real) powi (e - m) * 10 powi m = 10 powi e"
    by (simp add: power_int_add[symmetric])
  ultimately have "(10::real) ^ nat (e - m) * 10 powi m = 10 powi e" by simp
  then show ?thesis
    by (simp add: at_exponent_def signed_coeff_def dec_real_def mult.assoc)
qed

lemma dec_less_finite:
  "dec_less (Finite s1 c1 e1) (Finite s2 c2 e2) = Inr (dec_real s1 c1 e1 < dec_real s2 c2 e2)"
proof -
  let ?m = "min e1 e2"
  let ?a1 = "at_exponent s1 c1 e1 ?m" and ?a2 = "at_exponent s2 c2 e2 ?m"
  have 1: "real_of_int ?a1 * 10 powi ?m = dec_real s1 c1 e1" by (rule at_exponent_real) simp
  have 2: "real_of_int ?a2 * 10 powi ?m = dec_real s2 c2 e2" by (rule at_exponent_real) simp
  have "(?a1 < ?a2) = (real_of_int ?a1 * 10 powi ?m < real_of_int ?a2 * 10 powi ?m)"
    using mult_less_cancel_right_pos[OF ten_powi_pos[of ?m], of "real_of_int ?a1" "real_of_int ?a2"]
    by simp
  then show ?thesis by (simp add: 1 2)
qed

lemma dec_real_zero: "dec_real False 0 0 = 0" by (simp add: dec_real_def)

lemma dec_real_max: "dec_real False 999999999 (- 2) = 999999999 / 100"
  by (simp add: dec_real_def power_int_minus)

lemma decimal_checked_spec:
  assumes "s \<noteq> []"
  shows "decimal_checked s f =
     (case Decimal s of
        None \<Rightarrow> Inl (Exc InvalidOperation ''[<class 'decimal.ConversionSyntax'>]'')
      | Some d \<Rightarrow>
          if is_nan d then Inl (Exc InvalidOperation ''[<class 'decimal.InvalidOperation'>]'')
          else if dec_negative d then Inl (Exc ValueError (''Negative value not allowed for '' @ f))
          else if dec_too_large d then Inl (Exc ValueError (''Value too large for '' @ f))
          else Inr d)"
proof (cases "Decimal s")
  case None
  with assms show ?thesis by (simp add: decimal_checked_def)
next
  case (Some d)
  show ?thesis
  proof (cases d)
    case (Finite sg c e)
    have n: "dec_less (Finite sg c e) int_zero = Inr (dec_negative (Finite sg c e))"
      unfolding int_zero_def dec_less_finite by (simp add: dec_real_zero)
    have b: "dec_less max_amount (Finite sg c e) = Inr (dec_too_large (Finite sg c e))"
      unfolding max_amount_def dec_less_finite by (simp add: dec_real_max)
    from Some assms Finite show ?thesis
      by (simp add: decimal_checked_def then_do_def n b del: dec_less.simps dec_negative.simps
            dec_too_large.simps)
  next
    case (Infinity sg)
    with Some assms show ?thesis
      by (simp add: decimal_checked_def then_do_def int_zero_def max_amount_def)
  next
    case (NaN sg g p)
    with Some assms show ?thesis
      by (simp add: decimal_checked_def then_do_def int_zero_def max_amount_def)
  qed
qed

lemma safe_decimal_conversion_cases:
  "safe_decimal_conversion v f =
     (if cleaned v = [] then Inr zero_amount
      else case Decimal (cleaned v) of
          None \<Rightarrow> Inl (Exc ValueError (''Invalid '' @ f @ '': '' @ quoted (py_str v) @ '' - ''
                      @ ''[<class 'decimal.ConversionSyntax'>]''))
        | Some d \<Rightarrow>
            if is_nan d then Inl (Exc ValueError (''Invalid '' @ f @ '': '' @ quoted (py_str v)
                      @ '' - '' @ ''[<class 'decimal.InvalidOperation'>]''))
            else if dec_negative d then Inl (Exc ValueError (''Invalid '' @ f @ '': ''
                      @ quoted (py_str v) @ '' - '' @ ''Negative value not allowed for '' @ f))
            else if dec_too_large d then Inl (Exc ValueError (''Invalid '' @ f @ '': ''
                      @ quoted (py_str v) @ '' - '' @ ''Value too large for '' @ f))
            else Inr d)"
proof (cases "cleaned v = []")
  case True
  then show ?thesis by (simp add: safe_decimal_conversion_def decimal_checked_def)
next
  case False
  then show ?thesis
    by (simp add: safe_decimal_conversion_def decimal_checked_spec split: option.splits)
qed

lemma invalid_prefix:
  "take (length (''Invalid '' @ f @ '': '')) ((''Invalid '' @ f @ '': '') @ rest) = ''Invalid '' @ f @ '': ''"
  by (rule append_eq_conv_conj[THEN iffD1, THEN conjunct1, symmetric]) (rule refl)

lemma safe_decimal_conversion_error:
  assumes "safe_decimal_conversion v f = Inl e"
  shows "exc_kind e = ValueError
    \<and> take (length (''Invalid '' @ f @ '': '')) (str_exc e) = ''Invalid '' @ f @ '': ''"
proof -
  from assms obtain e0 where
    e: "e = Exc ValueError ((''Invalid '' @ f @ '': '') @ quoted (py_str v) @ '' - '' @ str_exc e0)"
    by (auto simp: safe_decimal_conversion_def split: sum.splits)
  show ?thesis unfolding e exc_kind.simps str_exc.simps
    using invalid_prefix[of f] by blast
qed

lemma strip_decompose:
  "\<exists>l r. list_all py_isspace l \<and> list_all py_isspace r \<and> s = l @ strip s @ r"
proof -
  let ?t = "dropWhile py_isspace s"
  have 1: "s = takeWhile py_isspace s @ ?t" by simp
  have "rev ?t = takeWhile py_isspace (rev ?t) @ dropWhile py_isspace (rev ?t)" by simp
  then have "?t = rev (dropWhile py_isspace (rev ?t)) @ rev (takeWhile py_isspace (rev ?t))"
    by (metis rev_append rev_rev_ident)
  then have 2: "?t = strip s @ rev (takeWhile py_isspace (rev ?t))"
    by (simp add: strip_def)
  have 3: "list_all py_isspace (takeWhile py_isspace s)"
    by (simp add: list_all_iff) (meson set_takeWhileD)
  have 4: "list_all py_isspace (rev (takeWhile py_isspace (rev ?t)))"
    by (simp add: list_all_iff) (meson set_takeWhileD)
  have "s = takeWhile py_isspace s @ strip s @ rev (takeWhile py_isspace (rev ?t))"
    using 1 2 by metis
  with 3 4 show ?thesis by blast
qed

lemma cleaned_decompose:
  "\<exists>l r. list_all py_isspace l \<and> list_all py_isspace r
     \<and> filter (\<lambda>c. c \<noteq> CHR ''$'' \<and> c \<noteq> CHR '','') (py_str v) = l @ cleaned v @ r"
  using strip_decompose[of "filter (\<lambda>c. c \<noteq> CHR ''$'' \<and> c \<noteq> CHR '','') (py_str v)"]
  by (simp add: cleaned_def)

text \<open>
  C8. \<^verbatim>\<open>safe_decimal_conversion\<close> works on the cleaned value: the text of the value
  with every \<^verbatim>\<open>$\<close> and every comma taken out is some whitespace, the cleaned value, and
  some whitespace, and the cleaned value neither starts nor ends with whitespace (which
  determines it). When nothing is left the result is the decimal
  0.00. Otherwise it fails exactly when the text is not a decimal number (\<^verbatim>\<open>Decimal\<close>
  rejects it, or reads it as a NaN), is negative or exceeds 9,999,999.99, and when it does
  not fail the result is the decimal that \<^verbatim>\<open>Decimal\<close> reads, unrounded. Every failure is a
  \<^verbatim>\<open>ValueError\<close> whose text starts \<^verbatim>\<open>Invalid <field>: \<close>.
\<close>

theorem safe_decimal_conversion_spec:
  "(\<exists>l r. list_all py_isspace l \<and> list_all py_isspace r
       \<and> filter (\<lambda>c. c \<noteq> CHR ''$'' \<and> c \<noteq> CHR '','') (py_str v) = l @ cleaned v @ r)
   \<and> CHR ''$'' \<notin> set (cleaned v) \<and> CHR '','' \<notin> set (cleaned v)
   \<and> (cleaned v \<noteq> [] \<longrightarrow> \<not> py_isspace (hd (cleaned v)) \<and> \<not> py_isspace (last (cleaned v)))
   \<and> (cleaned v = [] \<longrightarrow> safe_decimal_conversion v f = Inr zero_amount)
   \<and> zero_amount = Finite False 0 (- 2) \<and> dec_real False 0 (- 2) = 0
   \<and> (cleaned v \<noteq> [] \<longrightarrow>
         isl (safe_decimal_conversion v f) =
           (case Decimal (cleaned v) of
              None \<Rightarrow> True
            | Some d \<Rightarrow> is_nan d \<or> dec_negative d \<or> dec_too_large d))
   \<and> (\<forall>d. cleaned v \<noteq> [] \<and> Decimal (cleaned v) = Some d
           \<and> \<not> is_nan d \<and> \<not> dec_negative d \<and> \<not> dec_too_large d
         \<longrightarrow> safe_decimal_conversion v f = Inr d)
   \<and> (\<forall>e. safe_decimal_conversion v f = Inl e \<longrightarrow>
         exc_kind e = ValueError
         \<and> take (length (''Invalid '' @ f @ '': '')) (str_exc e) = ''Invalid '' @ f @ '': '')"
proof (intro conjI allI impI)
  show "\<exists>l r. list_all py_isspace l \<and> list_all py_isspace r
       \<and> filter (\<lambda>c. c \<noteq> CHR ''$'' \<and> c \<noteq> CHR '','') (py_str v) = l @ cleaned v @ r"
    by (rule cleaned_decompose)
  show "CHR ''$'' \<notin> set (cleaned v)" "CHR '','' \<notin> set (cleaned v)"
    using cleaned_chars by blast+
  show "zero_amount = Finite False 0 (- 2)" by (simp add: zero_amount_def)
  show "dec_real False 0 (- 2) = 0" by (simp add: dec_real_def)
next
  assume "cleaned v \<noteq> []"
  then show "\<not> py_isspace (hd (cleaned v))" "\<not> py_isspace (last (cleaned v))"
    unfolding cleaned_def by (rule strip_hd, rule strip_last)
next
  assume "cleaned v = []"
  then show "safe_decimal_conversion v f = Inr zero_amount"
    by (simp add: safe_decimal_conversion_cases)
next
  assume "cleaned v \<noteq> []"
  then show "isl (safe_decimal_conversion v f) =
           (case Decimal (cleaned v) of
              None \<Rightarrow> True
            | Some d \<Rightarrow> is_nan d \<or> dec_negative d \<or> dec_too_large d)"
    by (simp add: safe_decimal_conversion_cases split: option.splits)
next
  fix d
  assume "cleaned v \<noteq> [] \<and> Decimal (cleaned v) = Some d
           \<and> \<not> is_nan d \<and> \<not> dec_negative d \<and> \<not> dec_too_large d"
  then show "safe_decimal_conversion v f = Inr d"
    by (simp add: safe_decimal_conversion_cases)
next
  fix e assume "safe_decimal_conversion v f = Inl e"
  then show "exc_kind e = ValueError"
    "take (length (''Invalid '' @ f @ '': '')) (str_exc e) = ''Invalid '' @ f @ '': ''"
    using safe_decimal_conversion_error by blast+
qed

lemma ex_cleaned: "cleaned (PStr ''$1,200.00'') = ''1200.00''"
  by (simp add: cleaned_def strip_def py_isspace_def)

lemma ex_Decimal: "Decimal ''1200.00'' = Some (Finite False 120000 (- 2))"
  by (simp add: Decimal_def numeric_value_def char_evals Let_def)

lemma ex_in_range:
  "\<not> is_nan (Finite False 120000 (- 2)) \<and> \<not> dec_negative (Finite False 120000 (- 2))
   \<and> \<not> dec_too_large (Finite False 120000 (- 2))"
  by (simp add: dec_real_def power_int_minus)

theorem safe_decimal_conversion_spec_witness:
  "cleaned (PStr ''$1,200.00'') = ''1200.00''
   \<and> Decimal ''1200.00'' = Some (Finite False 120000 (- 2))
   \<and> dec_real False 120000 (- 2) = 1200
   \<and> safe_decimal_conversion (PStr ''$1,200.00'') ''billed_amount'' = Inr (Finite False 120000 (- 2))"
proof -
  have h: "cleaned (PStr ''$1,200.00'') \<noteq> []
           \<and> Decimal (cleaned (PStr ''$1,200.00'')) = Some (Finite False 120000 (- 2))
           \<and> \<not> is_nan (Finite False 120000 (- 2)) \<and> \<not> dec_negative (Finite False 120000 (- 2))
           \<and> \<not> dec_too_large (Finite False 120000 (- 2))"
    using ex_in_range by (simp add: ex_cleaned ex_Decimal del: dec_negative.simps dec_too_large.simps)
  have r: "dec_real False 120000 (- 2) = 1200" by (simp add: dec_real_def power_int_minus)
  note T = safe_decimal_conversion_spec[of "PStr ''$1,200.00''" "''billed_amount''"]
  have "safe_decimal_conversion (PStr ''$1,200.00'') ''billed_amount'' = Inr (Finite False 120000 (- 2))"
    by (rule T[THEN conjunct2, THEN conjunct2, THEN conjunct2, THEN conjunct2, THEN conjunct2,
               THEN conjunct2, THEN conjunct2, THEN conjunct2, THEN conjunct1, THEN spec, THEN mp,
               OF h])
  with ex_cleaned ex_Decimal r show ?thesis by (intro conjI)
qed

lemma import_data_no_rows_csv:
  assumes "fname u \<noteq> []" "fsize u \<le> MAX_FILE_SIZE" "decode_error u = None"
    "csv_error u = None" "csv_rows u = []"
  shows "import_data res db (Some u) None ''csv'' op' = (Done, res, snd (start_phase op' (res, db)))"
  using assms
  by (simp add: import_data_def validate_file_def file_given_def atomic_def import_block_def
        import_claims_csv_def start_phase_def Let_def)

lemma import_data_no_rows_json:
  assumes "fname u \<noteq> []" "fsize u \<le> MAX_FILE_SIZE" "decode_error u = None"
    "json_doc u = Inr (JArray [])" "ft \<noteq> ''csv''"
  shows "import_data res db (Some u) None ft op' = (Done, res, snd (start_phase op' (res, db)))"
  using assms
  by (simp add: import_data_def validate_file_def file_given_def atomic_def import_block_def
        import_claims_json_def start_phase_def Let_def MAX_ROWS_def)

lemma import_claims_json_empty_upload:
  "import_claims_json (Some (empty_upload name)) a st =
     (Raised (Exc JSONDecodeError ''Expecting value: line 1 column 1 (char 0)''), st)"
  by (simp add: import_claims_json_def empty_upload_def)

lemma import_data_zero_byte_json:
  assumes "ft \<noteq> ''csv''"
  shows "\<exists>e res'. import_data res db (Some (empty_upload name)) df ft op' = (Raised e, res', db)"
proof (cases rule: import_data_cases[of res db "Some (empty_upload name)" df ft op'])
  case (invalid e)
  then show ?thesis by blast
next
  case (returned res' db')
  have "fst (import_block (Some (empty_upload name)) df ft op' (res, db)) \<noteq> Done"
    using assms
    by (simp add: import_block_def Let_def import_claims_json_empty_upload)
  with returned show ?thesis by simp
next
  case (failed e res' db')
  then show ?thesis by blast
next
  case (undone res' db')
  have "fst (import_block (Some (empty_upload name)) df ft op' (res, db)) \<noteq> NeedsRollback"
    using assms
    by (simp add: import_block_def Let_def import_claims_json_empty_upload)
  with undone show ?thesis by simp
qed

lemma zero_byte_form_invalid:
  assumes "post_claims_file p = Some u"
    and "fsize u = 0 \<or> (post_file_type p = ''json'' \<and> json_doc u = Inr (JArray []))"
  shows "\<not> is_valid p"
  using assms(2)
proof
  assume "fsize u = 0"
  then show ?thesis using assms(1) by (simp add: is_valid_def file_field_ok_def)
next
  assume j: "post_file_type p = ''json'' \<and> json_doc u = Inr (JArray [])"
  have "isl (clean_claims_file ''json'' (Some u)) \<or> fname u = []"
    using j by (simp add: clean_claims_file_def check_json_fields_def then_do_def rewrapped_def
                  validation_error_def split: option.splits)
  then show ?thesis using assms(1) j by (auto simp: is_valid_def file_field_ok_def)
qed

text \<open>
  C6. \<^verbatim>\<open>import_data\<close> has no check for an empty claims file. A claims file without a
  record that can be read (CSV of zero bytes or of a header only, JSON \<^verbatim>\<open>[]\<close>) is imported:
  the call returns with the results unchanged, and the store is unchanged in add mode and
  emptied in overwrite mode. A JSON claims file of zero bytes makes the call raise (the
  text does not parse), with the store as before the call. Through the upload form a
  claims file of zero bytes, and a JSON claims file that holds \<^verbatim>\<open>[]\<close>, are refused by the
  form before \<^verbatim>\<open>import_data\<close> is called, and the store is unchanged.
\<close>

theorem empty_claims_file_handling:
  "(\<forall>u::upload. fname u \<noteq> [] \<and> fsize u \<le> MAX_FILE_SIZE \<and> decode_error u = None
         \<and> csv_error u = None \<and> csv_rows u = [] \<longrightarrow>
      import_data res db (Some u) None ''csv'' op' = (Done, res, snd (start_phase op' (res, db))))
   \<and> (\<forall>u::upload. fname u \<noteq> [] \<and> fsize u \<le> MAX_FILE_SIZE \<and> decode_error u = None
         \<and> json_doc u = Inr (JArray []) \<and> ft \<noteq> ''csv'' \<longrightarrow>
      import_data res db (Some u) None ft op' = (Done, res, snd (start_phase op' (res, db))))
   \<and> snd (start_phase ''add'' (res, db)) = db
   \<and> snd (start_phase ''overwrite'' (res, db)) = empty_store
   \<and> (ft \<noteq> ''csv'' \<longrightarrow>
        (\<exists>e res'. import_data res db (Some (empty_upload name)) df ft op' = (Raised e, res', db)))
   \<and> (\<forall>(p::post) u. post_claims_file p = Some u
          \<and> (fsize u = 0 \<or> (post_file_type p = ''json'' \<and> json_doc u = Inr (JArray []))) \<longrightarrow>
        data_upload_view db p = (FormErrors, db))"
proof (intro conjI allI impI)
  fix u :: upload
  assume "fname u \<noteq> [] \<and> fsize u \<le> MAX_FILE_SIZE \<and> decode_error u = None
         \<and> csv_error u = None \<and> csv_rows u = []"
  then show "import_data res db (Some u) None ''csv'' op' = (Done, res, snd (start_phase op' (res, db)))"
    using import_data_no_rows_csv by blast
next
  fix u :: upload
  assume "fname u \<noteq> [] \<and> fsize u \<le> MAX_FILE_SIZE \<and> decode_error u = None
         \<and> json_doc u = Inr (JArray []) \<and> ft \<noteq> ''csv''"
  then show "import_data res db (Some u) None ft op' = (Done, res, snd (start_phase op' (res, db)))"
    using import_data_no_rows_json by blast
next
  show "snd (start_phase ''add'' (res, db)) = db" by (simp add: start_phase_def)
  show "snd (start_phase ''overwrite'' (res, db)) = empty_store"
    by (simp add: start_phase_def delete_all_claims_def empty_store_def)
next
  assume "ft \<noteq> ''csv''"
  then show "\<exists>e res'. import_data res db (Some (empty_upload name)) df ft op' = (Raised e, res', db)"
    by (rule import_data_zero_byte_json)
next
  fix p :: post and u
  assume "post_claims_file p = Some u
          \<and> (fsize u = 0 \<or> (post_file_type p = ''json'' \<and> json_doc u = Inr (JArray [])))"
  then have "\<not> is_valid p" using zero_byte_form_invalid by blast
  then show "data_upload_view db p = (FormErrors, db)" by (simp add: data_upload_view_def)
qed

lemma ex_empty_upload:
  "fname (empty_upload ''claims.csv'') \<noteq> [] \<and> fsize (empty_upload ''claims.csv'') \<le> MAX_FILE_SIZE
   \<and> decode_error (empty_upload ''claims.csv'') = None
   \<and> csv_error (empty_upload ''claims.csv'') = None \<and> csv_rows (empty_upload ''claims.csv'') = []"
  by (simp add: empty_upload_def)

lemma ex_empty_array:
  "fname (rows_upload ''claims.json'' []) \<noteq> [] \<and> fsize (rows_upload ''claims.json'' []) \<le> MAX_FILE_SIZE
   \<and> decode_error (rows_upload ''claims.json'' []) = None
   \<and> json_doc (rows_upload ''claims.json'' []) = Inr (JArray []) \<and> ''json'' \<noteq> ''csv''"
  by (simp add: rows_upload_def MAX_FILE_SIZE_def)

theorem empty_claims_file_handling_witness:
  "fsize (empty_upload ''claims.csv'') = 0
   \<and> import_data init_results ex_store (Some (empty_upload ''claims.csv'')) None ''csv'' ''overwrite''
       = (Done, init_results, empty_store)
   \<and> import_data init_results ex_store (Some (rows_upload ''claims.json'' [])) None ''json'' ''overwrite''
       = (Done, init_results, empty_store)
   \<and> (\<exists>e res'. import_data init_results ex_store (Some (empty_upload ''claims.json'')) None ''json''
          ''overwrite'' = (Raised e, res', ex_store))
   \<and> data_upload_view ex_store \<lparr>post_operation = ''overwrite'', post_file_type = ''csv'',
        post_claims_file = Some (empty_upload ''claims.csv''), post_details_file = None\<rparr>
       = (FormErrors, ex_store)"
proof -
  note T = empty_claims_file_handling[of init_results ex_store "''overwrite''" "''json''"
             "''claims.json''" None]
  have z: "fsize (empty_upload ''claims.csv'') = 0" by (simp add: empty_upload_def)
  have s: "snd (start_phase ''overwrite'' (init_results, ex_store)) = empty_store"
    by (rule T[THEN conjunct2, THEN conjunct2, THEN conjunct2, THEN conjunct1])
  have a: "import_data init_results ex_store (Some (empty_upload ''claims.csv'')) None ''csv'' ''overwrite''
       = (Done, init_results, empty_store)"
    using T[THEN conjunct1, THEN spec, THEN mp, OF ex_empty_upload] by (simp only: s)
  have b: "import_data init_results ex_store (Some (rows_upload ''claims.json'' [])) None ''json'' ''overwrite''
       = (Done, init_results, empty_store)"
    using T[THEN conjunct2, THEN conjunct1, THEN spec, THEN mp, OF ex_empty_array] by (simp only: s)
  have j: "''json'' \<noteq> ''csv''" by simp
  have c: "\<exists>e res'. import_data init_results ex_store (Some (empty_upload ''claims.json'')) None ''json''
          ''overwrite'' = (Raised e, res', ex_store)"
    by (rule T[THEN conjunct2, THEN conjunct2, THEN conjunct2, THEN conjunct2, THEN conjunct1,
               THEN mp, OF j])
  have h: "post_claims_file \<lparr>post_operation = ''overwrite'', post_file_type = ''csv'',
        post_claims_file = Some (empty_upload ''claims.csv''), post_details_file = None\<rparr>
        = Some (empty_upload ''claims.csv'')
      \<and> (fsize (empty_upload ''claims.csv'') = 0
          \<or> (post_file_type \<lparr>post_operation = ''overwrite'', post_file_type = ''csv'',
                post_claims_file = Some (empty_upload ''claims.csv''), post_details_file = None\<rparr> = ''json''
              \<and> json_doc (empty_upload ''claims.csv'') = Inr (JArray [])))"
    by (simp add: empty_upload_def)
  have d: "data_upload_view ex_store \<lparr>post_operation = ''overwrite'', post_file_type = ''csv'',
        post_claims_file = Some (empty_upload ''claims.csv''), post_details_file = None\<rparr>
       = (FormErrors, ex_store)"
    by (rule T[THEN conjunct2, THEN conjunct2, THEN conjunct2, THEN conjunct2, THEN conjunct2,
               THEN spec, THEN spec, THEN mp, OF h])
  show ?thesis using z a b c d by (intro conjI)
qed

theorem empty_claims_file_accepted:
  "claims ex_store = [ex_claim]
   \<and> fsize (empty_upload ''claims.csv'') = 0 \<and> csv_rows (empty_upload ''claims.csv'') = []
   \<and> import_data init_results ex_store (Some (empty_upload ''claims.csv'')) None ''csv'' ''overwrite''
       = (Done, init_results, empty_store)
   \<and> csv_rows header_only = []
   \<and> data_upload_view ex_store \<lparr>post_operation = ''overwrite'', post_file_type = ''csv'',
        post_claims_file = Some header_only, post_details_file = None\<rparr>
       = (Imported init_results, empty_store)"
proof (intro conjI)
  show "claims ex_store = [ex_claim]" by (simp add: ex_store_def empty_store_def)
  show "fsize (empty_upload ''claims.csv'') = 0" "csv_rows (empty_upload ''claims.csv'') = []"
    by (simp_all add: empty_upload_def)
  show "import_data init_results ex_store (Some (empty_upload ''claims.csv'')) None ''csv'' ''overwrite''
       = (Done, init_results, empty_store)"
    by (simp add: import_data_no_rows_csv empty_upload_def start_phase_def delete_all_claims_def
          empty_store_def)
  show "csv_rows header_only = []" by (simp add: header_only_def)
  have v: "is_valid \<lparr>post_operation = ''overwrite'', post_file_type = ''csv'',
        post_claims_file = Some header_only, post_details_file = None\<rparr>"
    by (simp add: is_valid_def file_field_ok_def clean_claims_file_def clean_claim_details_file_def
          header_only_def ends_with_def lower_def check_csv_headers_def required_claim_fields_def
          then_do_def Let_def)
  have i: "import_data init_results ex_store (Some header_only) None ''csv'' ''overwrite''
       = (Done, init_results, empty_store)"
    by (simp add: import_data_no_rows_csv header_only_def MAX_FILE_SIZE_def start_phase_def
          delete_all_claims_def empty_store_def)
  show "data_upload_view ex_store \<lparr>post_operation = ''overwrite'', post_file_type = ''csv'',
        post_claims_file = Some header_only, post_details_file = None\<rparr>
       = (Imported init_results, empty_store)"
    using v i by (simp add: data_upload_view_def)
qed

lemma ex_pending_error_line:
  "''Row '' @ str_nat 2 @ '': '' @ ''Invalid status: Pending. Must be one of: '' @ str_valid_statuses
     = ''Row 2: Invalid status: Pending. Must be one of: ['Paid', 'Denied', 'Under Review']''"
  by (simp add: str_nat_digit digit_char_def str_valid_statuses_def)

theorem add_mode_existing_id_recorded_as_error:
  "get_claim ex_store 7 = Some ex_claim
   \<and> ex_pending_row ''id'' = Some (PStr ''7'')
   \<and> import_data init_results ex_store (Some (rows_upload ''claims.csv'' [ex_pending_row])) None
        ''csv'' ''add''
      = (Done,
         add_error ''Row 2: Invalid status: Pending. Must be one of: ['Paid', 'Denied', 'Under Review']''
           init_results,
         ex_store)"
proof (intro conjI)
  show "get_claim ex_store 7 = Some ex_claim"
    by (simp add: get_claim_def ex_store_def empty_store_def ex_claim_def)
  show "ex_pending_row ''id'' = Some (PStr ''7'')"
    by (simp add: ex_pending_row_def ex_row_def)
  have n: "''claims.csv'' \<noteq> []" by simp
  show "import_data init_results ex_store (Some (rows_upload ''claims.csv'' [ex_pending_row])) None
        ''csv'' ''add''
      = (Done,
         add_error ''Row 2: Invalid status: Pending. Must be one of: ['Paid', 'Denied', 'Under Review']''
           init_results,
         ex_store)"
    unfolding import_data_rows_csv[OF n]
    by (simp add: start_phase_def MAX_ROWS_def import_claim_csv_row_reconcile ex_pending_row_claim
          reconcile_Inl ex_pending_error_line[simplified])
qed



end
